theory Spec2Isabelle
  imports Complex_Main
begin

section \<open>JavaScript values and library functions\<close>

text \<open>
  Request payloads are JSON, so every field is a dynamically typed value. Numbers are
  kept exact (a rational, or NaN); the rounding of IEEE doubles and the infinities are
  not represented. An object or array is carried as its JSON text.
\<close>

datatype jsnum = NaN | Finite rat

datatype jsval =
    JUndefined
  | JNull
  | JBool bool
  | JNumber jsnum
  | JString string
  | JObject string

text \<open>
  Functions of the platform and of the libraries the source calls (the string grammar of
  \<^verbatim>\<open>Number\<close>, luxon's \<^verbatim>\<open>DateTime.fromISO\<close>, node's \<^verbatim>\<open>crypto\<close> and \<^verbatim>\<open>JSON.parse\<close>,
  the input syntax of PostgreSQL's \<^verbatim>\<open>timestamptz\<close>) are parameters of the model.
\<close>

record lib =
  to_number :: "jsval \<Rightarrow> jsnum"
    \<comment> \<open>\<^verbatim>\<open>Number(v)\<close> for a string or an object\<close>
  number_text :: "jsnum \<Rightarrow> string"
    \<comment> \<open>\<^verbatim>\<open>String(n)\<close>\<close>
  iso_valid :: "jsval \<Rightarrow> bool"
    \<comment> \<open>\<^verbatim>\<open>DateTime.fromISO(v).isValid\<close>\<close>
  pg_timestamptz :: "string \<Rightarrow> int option"
    \<comment> \<open>the instant PostgreSQL reads from a \<^verbatim>\<open>timestamptz\<close> literal; \<open>None\<close>: invalid input syntax\<close>
  hmac_sha256_hex :: "string \<Rightarrow> string \<Rightarrow> string"
    \<comment> \<open>\<^verbatim>\<open>crypto.createHmac('sha256', secret).update(body).digest('hex')\<close>\<close>
  json_href_topic :: "string \<Rightarrow> (jsval \<times> jsval) option"
    \<comment> \<open>\<^verbatim>\<open>evt = JSON.parse(text)\<close>, then \<^verbatim>\<open>(evt?._links?.resource?.href, evt?.topic)\<close>;
        \<open>None\<close>: \<^verbatim>\<open>JSON.parse\<close> throws\<close>

fun truthy :: "jsval \<Rightarrow> bool" where
  "truthy JUndefined = False"
| "truthy JNull = False"
| "truthy (JBool b) = b"
| "truthy (JNumber NaN) = False"
| "truthy (JNumber (Finite r)) = (r \<noteq> 0)"
| "truthy (JString s) = (s \<noteq> [])"
| "truthy (JObject j) = True"

fun is_string :: "jsval \<Rightarrow> bool" where
  "is_string (JString s) = True"
| "is_string v = False"

fun Number :: "lib \<Rightarrow> jsval \<Rightarrow> jsnum" where
  "Number L JUndefined = NaN"
| "Number L JNull = Finite 0"
| "Number L (JBool b) = Finite (if b then 1 else 0)"
| "Number L (JNumber n) = n"
| "Number L v = to_number L v"

fun isNaN :: "jsnum \<Rightarrow> bool" where
  "isNaN NaN = True"
| "isNaN (Finite r) = False"

fun le_zero :: "jsnum \<Rightarrow> bool" where
  "le_zero NaN = False"
| "le_zero (Finite r) = (r \<le> 0)"

text \<open>The text node-postgres sends for a query parameter; \<open>None\<close> is SQL NULL.\<close>

fun pg_text :: "lib \<Rightarrow> jsval \<Rightarrow> string option" where
  "pg_text L JUndefined = None"
| "pg_text L JNull = None"
| "pg_text L (JBool b) = Some (if b then ''true'' else ''false'')"
| "pg_text L (JNumber n) = Some (number_text L n)"
| "pg_text L (JString s) = Some s"
| "pg_text L (JObject j) = Some j"

datatype js_error =
    Thrown string
  | DwollaApiError nat string
    \<comment> \<open>\<^verbatim>\<open>new Error(`Dwolla API error: ${res.status} - ${errorText}`)\<close>\<close>

section \<open>The store (sql/001\_schema.sql, sql/002\_add\_invoice\_id\_to\_usage.sql)\<close>

record customer =
  c_crm_contact_id :: string
  c_name :: "string option"
  c_email :: "string option"
  dwolla_customer_href :: "string option"
  dwolla_funding_href :: "string option"
  c_status :: "string option"

record usage =
  u_id :: nat
  idempotency_key :: string
  u_crm_contact_id :: string
  units :: rat
  occurred_at :: int
  invoice_id :: "nat option"

record invoice =
  i_id :: nat
  i_crm_contact_id :: string
  period_start :: int
  period_end :: int
  amount_cents :: int
  dwolla_transfer_href :: "string option"
  i_status :: string
  created_at :: int
  updated_at :: int

text \<open>
  The three tables, rows in insertion order, and the two \<^verbatim>\<open>serial\<close> sequences. A rolled-back
  transaction leaves the whole record as it was; PostgreSQL does not give back the values
  drawn from a sequence, and no property below depends on the gaps this leaves.
\<close>

record database =
  customers :: "customer list"
  usage_ledger :: "usage list"
  invoices :: "invoice list"
  usage_ledger_id_seq :: nat
  invoices_id_seq :: nat

record config =
  GHL_BEARER :: "string option"
  DWOLLA_WEBHOOK_SECRET :: "string option"
  DWOLLA_YOUR_FUNDING_HREF :: "string option"

text \<open>The summary a billing run accumulates (\<^verbatim>\<open>results\<close> in \<^verbatim>\<open>/bill/week\<close>).\<close>

record billing_results =
  total_customers :: nat
  successful :: nat
  failed :: nat
  skipped :: nat
  total_amount_cents :: int
  total_amount_dollars :: rat
  errors :: "(string \<times> js_error) list"
    \<comment> \<open>\<^verbatim>\<open>{ crm_contact_id, error: error.message }\<close>\<close>

datatype response =
    SendStatus nat
  | InvalidPayload "string list"
    \<comment> \<open>\<^verbatim>\<open>res.status(400).json({ error: 'Invalid payload', details })\<close>\<close>
  | UsageResult bool string
    \<comment> \<open>\<^verbatim>\<open>res.status(200).json({ success: true, recorded, message })\<close>\<close>
  | BillingSummary int int billing_results
    \<comment> \<open>\<^verbatim>\<open>res.status(200).json({ success: true, period: { start, end }, results })\<close>\<close>
  | InternalServerError
    \<comment> \<open>\<^verbatim>\<open>res.status(500).json({ error: 'Internal server error' })\<close>\<close>

fun status_code :: "response \<Rightarrow> nat" where
  "status_code (SendStatus n) = n"
| "status_code (InvalidPayload ds) = 400"
| "status_code (UsageResult r m) = 200"
| "status_code (BillingSummary s e r) = 200"
| "status_code InternalServerError = 500"

section \<open>Usage Recorder (src/webhooks/ghl-usage.js)\<close>

record usage_body =
  b_crm_contact_id :: jsval
  b_name :: jsval
  b_email :: jsval
  b_units :: jsval
  b_occurred_at :: jsval
  b_idempotency_key :: jsval

record ghl_request =
  g_authorization :: "string option"
  g_body :: usage_body

definition validateUsageWebhook :: "lib \<Rightarrow> usage_body \<Rightarrow> string list" where
  "validateUsageWebhook L body =
     (if \<not> truthy (b_crm_contact_id body) \<or> \<not> is_string (b_crm_contact_id body)
      then [''crm_contact_id is required and must be a string''] else []) @
     (if \<not> truthy (b_idempotency_key body) \<or> \<not> is_string (b_idempotency_key body)
      then [''idempotency_key is required and must be a string''] else []) @
     (if b_units body = JUndefined \<or> b_units body = JNull
         \<or> isNaN (Number L (b_units body)) \<or> le_zero (Number L (b_units body))
      then [''units is required and must be a positive number''] else []) @
     (if \<not> truthy (b_occurred_at body) \<or> \<not> iso_valid L (b_occurred_at body)
      then [''occurred_at is required and must be a valid ISO 8601 timestamp''] else [])"

text \<open>
  \<^verbatim>\<open>INSERT INTO customers(crm_contact_id, name, email) VALUES ($1, $2, $3)
  ON CONFLICT (crm_contact_id) DO UPDATE SET name = EXCLUDED.name, email = EXCLUDED.email\<close>
\<close>

definition upsert_customer ::
  "string \<Rightarrow> string option \<Rightarrow> string option \<Rightarrow> database \<Rightarrow> database" where
  "upsert_customer cid nm em db =
     (if cid \<in> set (map c_crm_contact_id (customers db))
      then db\<lparr>customers :=
             map (\<lambda>c. if c_crm_contact_id c = cid then c\<lparr>c_name := nm, c_email := em\<rparr> else c)
                 (customers db)\<rparr>
      else db\<lparr>customers := customers db @
             [\<lparr>c_crm_contact_id = cid, c_name = nm, c_email = em,
               dwolla_customer_href = None, dwolla_funding_href = None,
               c_status = Some ''pending''\<rparr>]\<rparr>)"

text \<open>
  \<^verbatim>\<open>INSERT INTO usage_ledger(idempotency_key, crm_contact_id, units, occurred_at)
  VALUES ($1, $2, $3, $4) ON CONFLICT (idempotency_key) DO NOTHING RETURNING id\<close>
  The result is the list of returned ids and the store after the statement.
\<close>

definition insert_usage ::
  "string \<Rightarrow> string \<Rightarrow> rat \<Rightarrow> int \<Rightarrow> database \<Rightarrow> nat list \<times> database" where
  "insert_usage key cid n t db =
     (if key \<in> set (map idempotency_key (usage_ledger db))
      then ([], db)
      else ([usage_ledger_id_seq db],
            db\<lparr>usage_ledger := usage_ledger db @
                  [\<lparr>u_id = usage_ledger_id_seq db, idempotency_key = key,
                    u_crm_contact_id = cid, units = n, occurred_at = t,
                    invoice_id = None\<rparr>],
               usage_ledger_id_seq := Suc (usage_ledger_id_seq db)\<rparr>))"

text \<open>
  The statements between \<^verbatim>\<open>BEGIN\<close> and \<^verbatim>\<open>COMMIT\<close>. \<open>Inl\<close> is an error raised by the
  store: a parameter PostgreSQL cannot read for the column's type.
\<close>

definition usage_transaction ::
  "lib \<Rightarrow> usage_body \<Rightarrow> database \<Rightarrow> js_error + (nat list \<times> database)" where
  "usage_transaction L body db =
     (case (pg_text L (b_crm_contact_id body), pg_text L (b_idempotency_key body)) of
        (Some cid, Some key) \<Rightarrow>
          (let db1 = upsert_customer cid (pg_text L (b_name body)) (pg_text L (b_email body)) db
           in case Number L (b_units body) of
                NaN \<Rightarrow> Inl (Thrown ''invalid input for type numeric'')
              | Finite n \<Rightarrow>
                  (case Option.bind (pg_text L (b_occurred_at body)) (pg_timestamptz L) of
                     None \<Rightarrow> Inl (Thrown ''invalid input syntax for type timestamp with time zone'')
                   | Some t \<Rightarrow> Inr (insert_usage key cid n t db1)))
      | _ \<Rightarrow> Inl (Thrown ''null value violates not-null constraint''))"

text \<open>
  The handler. \<open>fault\<close> is an error of the store itself (\<^verbatim>\<open>db.connect()\<close> or a statement
  failing for a reason outside the request), raised before anything is committed.
\<close>

definition createGhlUsageHandler ::
  "lib \<Rightarrow> config \<Rightarrow> js_error option \<Rightarrow> database \<Rightarrow> ghl_request \<Rightarrow> response \<times> database" where
  "createGhlUsageHandler L cfg fault db req =
     (if g_authorization req \<noteq>
           Some (''Bearer '' @ (case GHL_BEARER cfg of None \<Rightarrow> ''undefined'' | Some s \<Rightarrow> s))
      then (SendStatus 401, db)
      else (let validationErrors = validateUsageWebhook L (g_body req) in
        if length validationErrors > 0 then (InvalidPayload validationErrors, db)
        else (case fault of
                Some e \<Rightarrow> (InternalServerError, db)
              | None \<Rightarrow>
                 (case usage_transaction L (g_body req) db of
                    Inl e \<Rightarrow> (InternalServerError, db)
                  | Inr (rows, db') \<Rightarrow>
                      (let isNew = length rows > 0
                       in (UsageResult isNew
                             (if isNew then ''Usage recorded'' else ''Duplicate request ignored''),
                           db'))))))"

section \<open>Transfer Initiator (\<^verbatim>\<open>dwollaPost\<close> in src/server.js)\<close>

text \<open>
  What the processor and the network do at one attempt of the loop: the token cannot be
  obtained, \<^verbatim>\<open>fetch\<close> rejects, or a response arrives with its status, body text and
  \<^verbatim>\<open>location\<close> header.
\<close>

datatype attempt_outcome =
    TokenFails js_error
  | FetchFails js_error
  | HttpResponse nat string "string option"

datatype post_result =
    Returned "string option"
    \<comment> \<open>\<^verbatim>\<open>return { location: res.headers.get('location') }\<close>\<close>
  | Throws js_error
  | ReturnedUndefined
    \<comment> \<open>the loop ends without returning\<close>

datatype effect =
    PostRequest nat
  | ClearTokenCache
  | Sleep nat

datatype loop_step =
    Done post_result "effect list"
  | Continue "effect list"

text \<open>The \<^verbatim>\<open>catch (error) { if (attempt === retries) throw error; }\<close> of the loop body.\<close>

definition catch_error :: "nat \<Rightarrow> nat \<Rightarrow> js_error \<Rightarrow> effect list \<Rightarrow> loop_step" where
  "catch_error retries attempt error es =
     (if attempt = retries then Done (Throws error) es else Continue es)"

text \<open>One iteration of the \<^verbatim>\<open>for\<close> loop: the \<^verbatim>\<open>try\<close> block and its \<^verbatim>\<open>catch\<close>.\<close>

definition attempt_step :: "(nat \<Rightarrow> attempt_outcome) \<Rightarrow> nat \<Rightarrow> nat \<Rightarrow> loop_step" where
  "attempt_step net retries attempt =
     (case net attempt of
        TokenFails e \<Rightarrow> catch_error retries attempt e []
      | FetchFails e \<Rightarrow> catch_error retries attempt e [PostRequest attempt]
      | HttpResponse st errorText location \<Rightarrow>
          (if \<not> (200 \<le> st \<and> st \<le> 299)
           then (let error = DwollaApiError st errorText in
                 if st = 401 \<and> attempt < retries
                 then Continue [PostRequest attempt, ClearTokenCache, Sleep 1000]
                 else if st \<ge> 400 \<and> st < 500
                 then catch_error retries attempt error [PostRequest attempt]
                 else if attempt < retries
                 then Continue [PostRequest attempt, Sleep (min (1000 * 2 ^ (attempt - 1)) 5000)]
                 else catch_error retries attempt error [PostRequest attempt])
           else Done (Returned location) [PostRequest attempt]))"

fun prepend :: "effect list \<Rightarrow> post_result \<times> effect list \<Rightarrow> post_result \<times> effect list" where
  "prepend es (r, es') = (r, es @ es')"

function dwollaPost_from ::
  "(nat \<Rightarrow> attempt_outcome) \<Rightarrow> nat \<Rightarrow> nat \<Rightarrow> post_result \<times> effect list" where
  "dwollaPost_from net retries attempt =
     (if attempt \<le> retries
      then (case attempt_step net retries attempt of
              Done r es \<Rightarrow> (r, es)
            | Continue es \<Rightarrow> prepend es (dwollaPost_from net retries (Suc attempt)))
      else (ReturnedUndefined, []))"
  by pat_completeness auto
termination
  by (relation "measure (\<lambda>(net, retries, attempt). Suc retries - attempt)") auto

declare dwollaPost_from.simps [simp del]

definition dwollaPost :: "(nat \<Rightarrow> attempt_outcome) \<Rightarrow> nat \<Rightarrow> post_result \<times> effect list" where
  "dwollaPost net retries = dwollaPost_from net retries 1"

section \<open>Billing Aggregator (\<^verbatim>\<open>/bill/week\<close> in src/server.js)\<close>

definition PRICE_PER_UNIT_CENTS :: rat where
  "PRICE_PER_UNIT_CENTS = 400"

text \<open>\<^verbatim>\<open>Math.round\<close>: the nearest integer, a half rounded up.\<close>

definition Math_round :: "rat \<Rightarrow> int" where
  "Math_round x = \<lfloor>x + 1 / 2\<rfloor>"

text \<open>
  The rows of one customer that the \<^verbatim>\<open>usage_totals\<close> subquery sums and that the claiming
  \<^verbatim>\<open>UPDATE\<close> selects: \<^verbatim>\<open>occurred_at >= $1 AND occurred_at < $2 AND invoice_id IS NULL\<close>.
\<close>

definition qualifies :: "int \<Rightarrow> int \<Rightarrow> string \<Rightarrow> usage \<Rightarrow> bool" where
  "qualifies start end cid u =
     (u_crm_contact_id u = cid \<and> occurred_at u \<ge> start \<and> occurred_at u < end
      \<and> invoice_id u = None)"

definition usage_totals :: "int \<Rightarrow> int \<Rightarrow> database \<Rightarrow> string \<Rightarrow> rat option" where
  "usage_totals start end db cid =
     (case filter (qualifies start end cid) (usage_ledger db) of
        [] \<Rightarrow> None
      | us \<Rightarrow> Some (sum_list (map units us)))"

fun COALESCE :: "rat option \<Rightarrow> rat \<Rightarrow> rat" where
  "COALESCE None d = d"
| "COALESCE (Some x) d = x"

text \<open>The billing query: one row per customer, in the order of the customers table.\<close>

definition billing_query :: "int \<Rightarrow> int \<Rightarrow> database \<Rightarrow> (customer \<times> rat) list" where
  "billing_query start end db =
     filter (\<lambda>(c, u). c_status c = Some ''active'' \<and> dwolla_funding_href c \<noteq> None \<and> u > 0)
       (map (\<lambda>c. (c, COALESCE (usage_totals start end db (c_crm_contact_id c)) 0))
            (customers db))"

record transfer_request =
  source_href :: "string option"
  destination_href :: "string option"
  amount_value :: int
    \<comment> \<open>in cents; the request carries \<^verbatim>\<open>(amountCents / 100).toFixed(2)\<close>\<close>
  meta_crm_contact_id :: string
  meta_period_start :: int
  meta_period_end :: int

text \<open>
  \<^verbatim>\<open>INSERT INTO invoices(crm_contact_id, period_start, period_end, amount_cents,
  dwolla_transfer_href) VALUES ($1, $2, $3, $4, $5) RETURNING id\<close>; \<^verbatim>\<open>amount_cents\<close> is a
  32-bit \<^verbatim>\<open>int\<close> column, and a value outside its range raises.
\<close>

definition insert_invoice ::
  "string \<Rightarrow> int \<Rightarrow> int \<Rightarrow> int \<Rightarrow> string option \<Rightarrow> int \<Rightarrow> database
     \<Rightarrow> js_error + (nat \<times> database)" where
  "insert_invoice cid start end amountCents location now db =
     (if amountCents > 2147483647 \<or> amountCents < - 2147483648
      then Inl (Thrown ''integer out of range'')
      else Inr (invoices_id_seq db,
                db\<lparr>invoices := invoices db @
                      [\<lparr>i_id = invoices_id_seq db, i_crm_contact_id = cid,
                        period_start = start, period_end = end,
                        amount_cents = amountCents, dwolla_transfer_href = location,
                        i_status = ''initiated'', created_at = now, updated_at = now\<rparr>],
                   invoices_id_seq := Suc (invoices_id_seq db)\<rparr>))"

text \<open>
  \<^verbatim>\<open>UPDATE usage_ledger SET invoice_id = $1 WHERE crm_contact_id = $2
  AND occurred_at >= $3 AND occurred_at < $4 AND invoice_id IS NULL\<close>
\<close>

definition claim_usage :: "nat \<Rightarrow> string \<Rightarrow> int \<Rightarrow> int \<Rightarrow> database \<Rightarrow> database" where
  "claim_usage invoiceId cid start end db =
     db\<lparr>usage_ledger :=
          map (\<lambda>u. if qualifies start end cid u then u\<lparr>invoice_id := Some invoiceId\<rparr> else u)
              (usage_ledger db)\<rparr>"

text \<open>
  The body of the per-customer \<^verbatim>\<open>try\<close> block, from \<^verbatim>\<open>BEGIN\<close> to \<^verbatim>\<open>COMMIT\<close>: \<open>Inl\<close> is
  the error the \<^verbatim>\<open>catch\<close> block receives, \<open>Inr\<close> the committed store.
\<close>

definition billing_transaction ::
  "config \<Rightarrow> (transfer_request \<Rightarrow> nat \<Rightarrow> attempt_outcome) \<Rightarrow> int \<Rightarrow> int \<Rightarrow> int
     \<Rightarrow> customer \<Rightarrow> int \<Rightarrow> database \<Rightarrow> js_error + database" where
  "billing_transaction cfg net start end now customer amountCents db =
     (case fst (dwollaPost
                 (net \<lparr>source_href = dwolla_funding_href customer,
                       destination_href = DWOLLA_YOUR_FUNDING_HREF cfg,
                       amount_value = amountCents,
                       meta_crm_contact_id = c_crm_contact_id customer,
                       meta_period_start = start, meta_period_end = end\<rparr>) 3) of
        Throws e \<Rightarrow> Inl e
      | ReturnedUndefined \<Rightarrow> Inl (Thrown ''Cannot read properties of undefined'')
      | Returned location \<Rightarrow>
          (case insert_invoice (c_crm_contact_id customer) start end amountCents location now db of
             Inl e \<Rightarrow> Inl e
           | Inr (invoiceId, db1) \<Rightarrow>
               Inr (claim_usage invoiceId (c_crm_contact_id customer) start end db1)))"

text \<open>One iteration of \<^verbatim>\<open>for (const customer of customers)\<close>.\<close>

fun bill_customer ::
  "config \<Rightarrow> (transfer_request \<Rightarrow> nat \<Rightarrow> attempt_outcome) \<Rightarrow> int \<Rightarrow> int \<Rightarrow> int
     \<Rightarrow> database \<times> billing_results \<Rightarrow> customer \<times> rat \<Rightarrow> database \<times> billing_results" where
  "bill_customer cfg net start end now (db, results) (customer, cunits) =
     (let amountCents = Math_round (cunits * PRICE_PER_UNIT_CENTS) in
      if amountCents \<le> 0
      then (db, results\<lparr>skipped := skipped results + 1\<rparr>)
      else (case billing_transaction cfg net start end now customer amountCents db of
              Inr db' \<Rightarrow>
                (db', results\<lparr>successful := successful results + 1,
                              total_amount_cents := total_amount_cents results + amountCents,
                              total_amount_dollars :=
                                total_amount_dollars results + of_int amountCents / 100\<rparr>)
            | Inl error \<Rightarrow>
                (db, results\<lparr>failed := failed results + 1,
                             errors := errors results @ [(c_crm_contact_id customer, error)]\<rparr>)))"

text \<open>
  The handler of \<^verbatim>\<open>POST /bill/week\<close>. The window \<open>[start, end)\<close> is the week before the
  start of the current week, read from the clock; \<open>fault\<close> is an error of the store on the
  billing query. Inside the loop the store raises for an amount outside the column's range
  only; a connection that fails there (\<^verbatim>\<open>db.connect()\<close>, \<^verbatim>\<open>ROLLBACK\<close>) would end the run with
  500 and is not represented.
\<close>

definition bill_week ::
  "config \<Rightarrow> (transfer_request \<Rightarrow> nat \<Rightarrow> attempt_outcome) \<Rightarrow> int \<Rightarrow> int \<Rightarrow> int
     \<Rightarrow> js_error option \<Rightarrow> database \<Rightarrow> string option \<Rightarrow> response \<times> database" where
  "bill_week cfg net start end now fault db authorization =
     (if authorization \<noteq> Some ''Bearer admin'' then (SendStatus 401, db)
      else (case fault of
              Some e \<Rightarrow> (InternalServerError, db)
            | None \<Rightarrow>
               (let rows = billing_query start end db;
                    results = \<lparr>total_customers = length rows, successful = 0, failed = 0, skipped = 0,
                               total_amount_cents = 0, total_amount_dollars = 0, errors = []\<rparr>;
                    (db', results') = foldl (bill_customer cfg net start end now) (db, results) rows
                in (BillingSummary start end results', db'))))"

section \<open>Transfer Status Reconciler (src/webhooks/dwolla-webhook.js)\<close>

record dwolla_request =
  x_request_signature_sha256 :: "string option"
  d_body :: string
    \<comment> \<open>the raw bytes \<^verbatim>\<open>express.raw\<close> hands over\<close>

text \<open>
  \<open>Inl\<close>: \<^verbatim>\<open>crypto.timingSafeEqual\<close> throws a \<^verbatim>\<open>RangeError\<close> when its two buffers differ
  in length.
\<close>

definition verifyDwollaWebhookSignature ::
  "lib \<Rightarrow> dwolla_request \<Rightarrow> string option \<Rightarrow> js_error + bool" where
  "verifyDwollaWebhookSignature L req secret =
     (case secret of
        None \<Rightarrow> Inr True
      | Some sec \<Rightarrow>
          if sec = [] then Inr True
          else (case x_request_signature_sha256 req of
                  None \<Rightarrow> Inr False
                | Some signature \<Rightarrow>
                    if signature = [] then Inr False
                    else (let calculated = hmac_sha256_hex L sec (d_body req) in
                          if length signature \<noteq> length calculated
                          then Inl (Thrown ''Input buffers must have the same byte length'')
                          else Inr (signature = calculated))))"

text \<open>
  \<^verbatim>\<open>UPDATE invoices SET status = <target>, updated_at = now()
  WHERE dwolla_transfer_href = $1 AND status != <target>\<close>
\<close>

definition update_invoice_status :: "string \<Rightarrow> string \<Rightarrow> int \<Rightarrow> database \<Rightarrow> database" where
  "update_invoice_status target href now db =
     db\<lparr>invoices :=
          map (\<lambda>i. if dwolla_transfer_href i = Some href \<and> i_status i \<noteq> target
                    then i\<lparr>i_status := target, updated_at := now\<rparr> else i)
              (invoices db)\<rparr>"

text \<open>
  The handler. Every exception inside it (the signature comparison, \<^verbatim>\<open>JSON.parse\<close>, the
  store failing with \<open>fault\<close>) reaches the \<^verbatim>\<open>catch\<close> block, which answers 200.
\<close>

definition createDwollaWebhookHandler ::
  "lib \<Rightarrow> config \<Rightarrow> int \<Rightarrow> js_error option \<Rightarrow> database \<Rightarrow> dwolla_request
     \<Rightarrow> response \<times> database" where
  "createDwollaWebhookHandler L cfg now fault db req =
     (case verifyDwollaWebhookSignature L req (DWOLLA_WEBHOOK_SECRET cfg) of
        Inl e \<Rightarrow> (SendStatus 200, db)
      | Inr False \<Rightarrow> (SendStatus 401, db)
      | Inr True \<Rightarrow>
          (case json_href_topic L (d_body req) of
             None \<Rightarrow> (SendStatus 200, db)
           | Some (href, topic) \<Rightarrow>
               if \<not> truthy href \<or> \<not> truthy topic then (SendStatus 200, db)
               else if topic = JString ''transfer_completed''
               then (case (fault, pg_text L href) of
                       (None, Some h) \<Rightarrow> (SendStatus 200, update_invoice_status ''completed'' h now db)
                     | _ \<Rightarrow> (SendStatus 200, db))
               else if topic = JString ''transfer_failed''
               then (case (fault, pg_text L href) of
                       (None, Some h) \<Rightarrow> (SendStatus 200, update_invoice_status ''failed'' h now db)
                     | _ \<Rightarrow> (SendStatus 200, db))
               else (SendStatus 200, db)))"

section \<open>The system as a sequence of requests\<close>

datatype request =
    UsageRequest "js_error option" ghl_request
  | BillRequest "transfer_request \<Rightarrow> nat \<Rightarrow> attempt_outcome" int int int "js_error option"
      "string option"
  | DwollaRequest int "js_error option" dwolla_request

fun handle :: "lib \<Rightarrow> config \<Rightarrow> database \<Rightarrow> request \<Rightarrow> response \<times> database" where
  "handle L cfg db (UsageRequest fault req) = createGhlUsageHandler L cfg fault db req"
| "handle L cfg db (BillRequest net start end now fault authorization) =
     bill_week cfg net start end now fault db authorization"
| "handle L cfg db (DwollaRequest now fault req) = createDwollaWebhookHandler L cfg now fault db req"

definition serve :: "lib \<Rightarrow> config \<Rightarrow> database \<Rightarrow> request list \<Rightarrow> database" where
  "serve L cfg db reqs = foldl (\<lambda>d r. snd (handle L cfg d r)) db reqs"

definition empty_database :: database where
  "empty_database =
     \<lparr>customers = [], usage_ledger = [], invoices = [],
      usage_ledger_id_seq = 1, invoices_id_seq = 1\<rparr>"

section \<open>Invariants of the store\<close>

text \<open>
  A usage row may change in one way only: its \<^verbatim>\<open>invoice_id\<close> goes from NULL to an invoice id.
\<close>

definition claim_mono :: "usage \<Rightarrow> usage \<Rightarrow> bool" where
  "claim_mono u u' =
     (u' = u \<or> (invoice_id u = None \<and> invoice_id u' \<noteq> None \<and> u' = u\<lparr>invoice_id := invoice_id u'\<rparr>))"

definition ledger_monotone :: "usage list \<Rightarrow> usage list \<Rightarrow> bool" where
  "ledger_monotone old new =
     (length old \<le> length new \<and> list_all2 claim_mono old (take (length old) new))"

definition well_formed :: "database \<Rightarrow> bool" where
  "well_formed db =
     (distinct (map c_crm_contact_id (customers db)) \<and>
      distinct (map idempotency_key (usage_ledger db)) \<and>
      distinct (map i_id (invoices db)) \<and>
      (\<forall>i\<in>set (invoices db). i_id i < invoices_id_seq db) \<and>
      (\<forall>u\<in>set (usage_ledger db).
         case invoice_id u of
           None \<Rightarrow> True
         | Some k \<Rightarrow> (\<exists>i\<in>set (invoices db). i_id i = k \<and> i_crm_contact_id i = u_crm_contact_id u)))"


text \<open>
  An invoice row may change in one way only: its status is set to \<^verbatim>\<open>completed\<close> or
  \<^verbatim>\<open>failed\<close>, together with \<^verbatim>\<open>updated_at\<close>.
\<close>

definition status_evolves :: "invoice \<Rightarrow> invoice \<Rightarrow> bool" where
  "status_evolves i i' =
     (i' = i \<or> ((i_status i' = ''completed'' \<or> i_status i' = ''failed'')
                 \<and> i' = i\<lparr>i_status := i_status i', updated_at := updated_at i'\<rparr>))"

definition invoices_extend :: "database \<Rightarrow> database \<Rightarrow> bool" where
  "invoices_extend a b =
     (length (invoices a) \<le> length (invoices b) \<and> invoices_id_seq a \<le> invoices_id_seq b \<and>
      list_all2 status_evolves (invoices a) (take (length (invoices a)) (invoices b)) \<and>
      (\<forall>i\<in>set (drop (length (invoices a)) (invoices b)). invoices_id_seq a \<le> i_id i))"

section \<open>A running example\<close>

text \<open>
  Concrete library functions, configuration, requests and stores, on which the theorems
  below are instantiated. The library functions are stand-ins that agree with the real
  ones on the few arguments used.
\<close>

definition example_lib :: lib where
  "example_lib =
     \<lparr>to_number = (\<lambda>v. if v = JString ''3'' then Finite 3 else NaN),
      number_text = (\<lambda>n. if n = Finite 3 then ''3'' else ''NaN''),
      iso_valid = (\<lambda>v. v = JString ''2025-01-15T20:30:00Z''),
      pg_timestamptz = (\<lambda>s. if s = ''2025-01-15T20:30:00Z'' then Some 1736973000 else None),
      hmac_sha256_hex = (\<lambda>secret body. ''5f2a''),
      json_href_topic =
        (\<lambda>text. if text = ''completed t1'' then Some (JString ''t1'', JString ''transfer_completed'')
                 else if text = ''failed t1'' then Some (JString ''t1'', JString ''transfer_failed'')
                 else if text = ''created t1'' then Some (JString ''t1'', JString ''transfer_created'')
                 else if text = ''completed t9'' then Some (JString ''t9'', JString ''transfer_completed'')
                 else None)\<rparr>"

definition example_config :: config where
  "example_config =
     \<lparr>GHL_BEARER = Some ''super-long-random'', DWOLLA_WEBHOOK_SECRET = Some ''whsec'',
      DWOLLA_YOUR_FUNDING_HREF = Some ''funding-sources/operator''\<rparr>"

definition example_body :: usage_body where
  "example_body =
     \<lparr>b_crm_contact_id = JString ''C1'', b_name = JString ''John Doe'',
      b_email = JString ''john@example.com'', b_units = JNumber (Finite 3),
      b_occurred_at = JString ''2025-01-15T20:30:00Z'', b_idempotency_key = JString ''C1-1''\<rparr>"

definition example_usage_request :: ghl_request where
  "example_usage_request =
     \<lparr>g_authorization = Some ''Bearer super-long-random'', g_body = example_body\<rparr>"

definition customer_C1 :: customer where
  "customer_C1 =
     \<lparr>c_crm_contact_id = ''C1'', c_name = Some ''John Doe'', c_email = Some ''john@example.com'',
      dwolla_customer_href = Some ''customers/C1'', dwolla_funding_href = Some ''funding-sources/C1'',
      c_status = Some ''active''\<rparr>"

definition usage_C1 :: usage where
  "usage_C1 =
     \<lparr>u_id = 1, idempotency_key = ''C1-1'', u_crm_contact_id = ''C1'', units = 3,
      occurred_at = 1736973000, invoice_id = None\<rparr>"

definition invoice_C1 :: invoice where
  "invoice_C1 =
     \<lparr>i_id = 1, i_crm_contact_id = ''C1'', period_start = 1736700000, period_end = 1737304800,
      amount_cents = 1200, dwolla_transfer_href = Some ''t1'', i_status = ''initiated'',
      created_at = 1737400000, updated_at = 1737400000\<rparr>"

text \<open>One active customer with one unbilled usage row of 3 units.\<close>

definition unbilled_store :: database where
  "unbilled_store =
     \<lparr>customers = [customer_C1], usage_ledger = [usage_C1], invoices = [],
      usage_ledger_id_seq = 2, invoices_id_seq = 1\<rparr>"

text \<open>The same store after a billing run has claimed the row for invoice 1.\<close>

definition billed_store :: database where
  "billed_store =
     \<lparr>customers = [customer_C1], usage_ledger = [usage_C1\<lparr>invoice_id := Some 1\<rparr>],
      invoices = [invoice_C1], usage_ledger_id_seq = 2, invoices_id_seq = 2\<rparr>"

text \<open>A processor that accepts every transfer, and one that rejects every transfer.\<close>

definition accepting_net :: "transfer_request \<Rightarrow> nat \<Rightarrow> attempt_outcome" where
  "accepting_net req attempt = HttpResponse 201 [] (Some ''t1'')"

definition rejecting_net :: "transfer_request \<Rightarrow> nat \<Rightarrow> attempt_outcome" where
  "rejecting_net req attempt = HttpResponse 400 ''unverified funding source'' None"

definition example_bill_request :: "(transfer_request \<Rightarrow> nat \<Rightarrow> attempt_outcome) \<Rightarrow> request" where
  "example_bill_request net =
     BillRequest net 1736700000 1737304800 1737400000 None (Some ''Bearer admin'')"

text \<open>A second customer, and a processor that rejects the transfers of the first only.\<close>

definition customer_C2 :: customer where
  "customer_C2 =
     \<lparr>c_crm_contact_id = ''C2'', c_name = Some ''Zach'', c_email = Some ''z@x.com'',
      dwolla_customer_href = Some ''customers/C2'', dwolla_funding_href = Some ''funding-sources/C2'',
      c_status = Some ''active''\<rparr>"

definition usage_C2 :: usage where
  "usage_C2 =
     \<lparr>u_id = 2, idempotency_key = ''C2-1'', u_crm_contact_id = ''C2'', units = 5 / 2,
      occurred_at = 1736980000, invoice_id = None\<rparr>"

definition invoice_C2 :: invoice where
  "invoice_C2 =
     \<lparr>i_id = 1, i_crm_contact_id = ''C2'', period_start = 1736700000, period_end = 1737304800,
      amount_cents = 1000, dwolla_transfer_href = Some ''t2'', i_status = ''initiated'',
      created_at = 1737400000, updated_at = 1737400000\<rparr>"

definition two_customer_store :: database where
  "two_customer_store =
     \<lparr>customers = [customer_C1, customer_C2], usage_ledger = [usage_C1, usage_C2], invoices = [],
      usage_ledger_id_seq = 3, invoices_id_seq = 1\<rparr>"

definition half_billed_store :: database where
  "half_billed_store =
     \<lparr>customers = [customer_C1, customer_C2],
      usage_ledger = [usage_C1, usage_C2\<lparr>invoice_id := Some 1\<rparr>], invoices = [invoice_C2],
      usage_ledger_id_seq = 3, invoices_id_seq = 2\<rparr>"

definition selective_net :: "transfer_request \<Rightarrow> nat \<Rightarrow> attempt_outcome" where
  "selective_net req attempt =
     (if meta_crm_contact_id req = ''C1''
      then HttpResponse 400 ''unverified funding source'' None
      else HttpResponse 201 [] (Some ''t2''))"

text \<open>
  The empty store after the example submission, and a retry of that submission with
  other units.
\<close>

definition recorded_store :: database where
  "recorded_store =
     \<lparr>customers =
        [\<lparr>c_crm_contact_id = ''C1'', c_name = Some ''John Doe'', c_email = Some ''john@example.com'',
          dwolla_customer_href = None, dwolla_funding_href = None, c_status = Some ''pending''\<rparr>],
      usage_ledger = [usage_C1], invoices = [],
      usage_ledger_id_seq = 2, invoices_id_seq = 1\<rparr>"

definition retry_usage_request :: ghl_request where
  "retry_usage_request =
     example_usage_request\<lparr>g_body := example_body\<lparr>b_units := JNumber (Finite 7)\<rparr>\<rparr>"

text \<open>
  A retry of the example submission under another name and email, and the store it leaves
  when sent to \<open>unbilled_store\<close>.
\<close>

definition rename_usage_request :: ghl_request where
  "rename_usage_request =
     example_usage_request
       \<lparr>g_body := example_body\<lparr>b_name := JString ''Johnny'', b_email := JString ''j@example.org''\<rparr>\<rparr>"

definition renamed_store :: database where
  "renamed_store =
     unbilled_store
       \<lparr>customers := [customer_C1\<lparr>c_name := Some ''Johnny'', c_email := Some ''j@example.org''\<rparr>]\<rparr>"

text \<open>
  Stores whose invoice has reached a terminal status, a configuration without a signing
  secret, and notifications: signed with the example digest, forged, and naming a transfer
  no invoice has.
\<close>

definition failed_store :: database where
  "failed_store =
     billed_store\<lparr>invoices := [invoice_C1\<lparr>i_status := ''failed'', updated_at := 1737450000\<rparr>]\<rparr>"

definition completed_store :: database where
  "completed_store =
     billed_store\<lparr>invoices := [invoice_C1\<lparr>i_status := ''completed'', updated_at := 1737500000\<rparr>]\<rparr>"

definition unsigned_config :: config where
  "unsigned_config = example_config\<lparr>DWOLLA_WEBHOOK_SECRET := None\<rparr>"

definition completed_notification :: dwolla_request where
  "completed_notification =
     \<lparr>x_request_signature_sha256 = Some ''5f2a'', d_body = ''completed t1''\<rparr>"

definition forged_notification :: dwolla_request where
  "forged_notification =
     \<lparr>x_request_signature_sha256 = Some ''0000'', d_body = ''completed t1''\<rparr>"

definition unsigned_notification :: dwolla_request where
  "unsigned_notification =
     \<lparr>x_request_signature_sha256 = None, d_body = ''completed t1''\<rparr>"

definition unknown_notification :: dwolla_request where
  "unknown_notification =
     \<lparr>x_request_signature_sha256 = Some ''5f2a'', d_body = ''completed t9''\<rparr>"

definition failed_notification :: dwolla_request where
  "failed_notification =
     \<lparr>x_request_signature_sha256 = Some ''5f2a'', d_body = ''failed t1''\<rparr>"

text \<open>
  A processor that answers the first attempt with a client error and the second with 201,
  and one that answers 401 twice and then 201.
\<close>

definition client_error_then_created :: "nat \<Rightarrow> attempt_outcome" where
  "client_error_then_created attempt =
     (if attempt = 1 then HttpResponse 400 ''ValidationError'' None
      else HttpResponse 201 [] (Some ''t1''))"

definition unauthorized_twice_then_created :: "nat \<Rightarrow> attempt_outcome" where
  "unauthorized_twice_then_created attempt =
     (if attempt < 3 then HttpResponse 401 ''ExpiredAccessToken'' None
      else HttpResponse 201 [] (Some ''t1''))"

text \<open>
  The billed store after a usage row of the same window has arrived late, and the store a
  second billing run over that window leaves.
\<close>

definition usage_C1_late :: usage where
  "usage_C1_late =
     \<lparr>u_id = 2, idempotency_key = ''C1-2'', u_crm_contact_id = ''C1'', units = 2,
      occurred_at = 1736990000, invoice_id = None\<rparr>"

definition late_usage_store :: database where
  "late_usage_store =
     billed_store\<lparr>usage_ledger := [usage_C1\<lparr>invoice_id := Some 1\<rparr>, usage_C1_late],
                  usage_ledger_id_seq := 3\<rparr>"

definition rebilled_store :: database where
  "rebilled_store =
     late_usage_store
       \<lparr>usage_ledger := [usage_C1\<lparr>invoice_id := Some 1\<rparr>, usage_C1_late\<lparr>invoice_id := Some 2\<rparr>],
        invoices := [invoice_C1, invoice_C1\<lparr>i_id := 2, amount_cents := 800\<rparr>],
        invoices_id_seq := 3\<rparr>"

section \<open>Properties\<close>

subsection \<open>Claims of usage rows\<close>

lemma claim_mono_refl: "claim_mono u u"
  by (simp add: claim_mono_def)

lemma claim_mono_trans: "claim_mono a b \<Longrightarrow> claim_mono b c \<Longrightarrow> claim_mono a c"
  by (auto simp: claim_mono_def)

lemma ledger_monotone_refl: "ledger_monotone xs xs"
  by (simp add: ledger_monotone_def list_all2_refl claim_mono_refl)

lemma ledger_monotone_trans:
  assumes "ledger_monotone a b" "ledger_monotone b c"
  shows "ledger_monotone a c"
proof -
  from assms have len: "length a \<le> length b" "length b \<le> length c"
    and ab: "list_all2 claim_mono a (take (length a) b)"
    and bc: "list_all2 claim_mono b (take (length b) c)"
    by (auto simp: ledger_monotone_def)
  from bc have "list_all2 claim_mono (take (length a) b) (take (length a) (take (length b) c))"
    by (rule list_all2_takeI)
  with len have "list_all2 claim_mono (take (length a) b) (take (length a) c)"
    by (simp add: min_def)
  with ab have "list_all2 claim_mono a (take (length a) c)"
    using list_all2_trans[of claim_mono claim_mono claim_mono] claim_mono_trans by blast
  with len show ?thesis by (simp add: ledger_monotone_def)
qed

lemma ledger_monotone_append: "ledger_monotone xs (xs @ ys)"
  by (simp add: ledger_monotone_def list_all2_refl claim_mono_refl)

lemma ledger_monotone_claim:
  "ledger_monotone xs (map (\<lambda>u. if qualifies s e cid u then u\<lparr>invoice_id := Some k\<rparr> else u) xs)"
  unfolding ledger_monotone_def
  by (auto simp: list_all2_conv_all_nth claim_mono_def qualifies_def)

lemma billing_transaction_cases:
  fixes cfg net start "end" now c a d
  defines "req \<equiv> \<lparr>source_href = dwolla_funding_href c,
                       destination_href = DWOLLA_YOUR_FUNDING_HREF cfg,
                       amount_value = a,
                       meta_crm_contact_id = c_crm_contact_id c,
                       meta_period_start = start, meta_period_end = end\<rparr>"
  obtains (failed) e where "billing_transaction cfg net start end now c a d = Inl e"
      "\<And>d0. billing_transaction cfg net start end now c a d0 = Inl e"
      "fst (dwollaPost (net req) 3) = Throws e \<or> fst (dwollaPost (net req) 3) = ReturnedUndefined
         \<or> a > 2147483647 \<or> a < - 2147483648"
  | (billed) loc where "fst (dwollaPost (net req) 3) = Returned loc"
      "- 2147483648 \<le> a" "a \<le> 2147483647"
      "billing_transaction cfg net start end now c a d =
         Inr (claim_usage (invoices_id_seq d) (c_crm_contact_id c) start end
               (d\<lparr>invoices := invoices d @
                      [\<lparr>i_id = invoices_id_seq d, i_crm_contact_id = c_crm_contact_id c,
                        period_start = start, period_end = end,
                        amount_cents = a, dwolla_transfer_href = loc,
                        i_status = ''initiated'', created_at = now, updated_at = now\<rparr>],
                   invoices_id_seq := Suc (invoices_id_seq d)\<rparr>))"
proof (cases "fst (dwollaPost (net req) 3)")
  case (Returned loc)
  show ?thesis
  proof (cases "a > 2147483647 \<or> a < - 2147483648")
    case True
    with Returned show ?thesis
      by (intro failed[of "Thrown ''integer out of range''"])
         (auto simp: billing_transaction_def insert_invoice_def req_def)
  next
    case False
    with Returned show ?thesis
      by (intro billed[of loc])
         (auto simp: billing_transaction_def insert_invoice_def req_def)
  qed
next
  case (Throws e)
  then show ?thesis
    by (intro failed[of e]) (auto simp: billing_transaction_def req_def)
next
  case ReturnedUndefined
  then show ?thesis
    by (intro failed[of "Thrown ''Cannot read properties of undefined''"])
       (auto simp: billing_transaction_def req_def)
qed

subsection \<open>One customer of a billing run\<close>

lemma foldl_rel:
  assumes "\<And>s. R s s" and "\<And>s t u. R s t \<Longrightarrow> R t u \<Longrightarrow> R s u"
    and "\<And>s x. x \<in> set xs \<Longrightarrow> R s (f s x)"
  shows "R s (foldl f s xs)"
  using assms(3)
proof (induction xs arbitrary: s)
  case Nil
  show ?case by (simp add: assms(1))
next
  case (Cons x xs)
  have "R s (f s x)" by (simp add: Cons.prems)
  moreover have "R (f s x) (foldl f (f s x) xs)"
    by (rule Cons.IH) (simp add: Cons.prems)
  ultimately show ?case using assms(2) by auto
qed

lemma foldl_inv:
  assumes "P s" and "\<And>s x. x \<in> set xs \<Longrightarrow> P s \<Longrightarrow> P (f s x)"
  shows "P (foldl f s xs)"
  using assms
  by (induction xs arbitrary: s) auto

lemma bill_customer_cases:
  fixes cfg net start "end" now d r c u
  defines "a \<equiv> Math_round (u * PRICE_PER_UNIT_CENTS)"
  defines "req \<equiv> \<lparr>source_href = dwolla_funding_href c,
                       destination_href = DWOLLA_YOUR_FUNDING_HREF cfg,
                       amount_value = a,
                       meta_crm_contact_id = c_crm_contact_id c,
                       meta_period_start = start, meta_period_end = end\<rparr>"
  obtains (skipped) "a \<le> 0"
      "bill_customer cfg net start end now (d, r) (c, u) = (d, r\<lparr>skipped := skipped r + 1\<rparr>)"
  | (failed) e where "0 < a"
      "\<And>d0. billing_transaction cfg net start end now c a d0 = Inl e"
      "fst (dwollaPost (net req) 3) = Throws e \<or> fst (dwollaPost (net req) 3) = ReturnedUndefined
         \<or> a > 2147483647"
      "bill_customer cfg net start end now (d, r) (c, u) =
         (d, r\<lparr>failed := failed r + 1, errors := errors r @ [(c_crm_contact_id c, e)]\<rparr>)"
  | (billed) loc where "0 < a" "a \<le> 2147483647"
      "fst (dwollaPost (net req) 3) = Returned loc"
      "bill_customer cfg net start end now (d, r) (c, u) =
         (claim_usage (invoices_id_seq d) (c_crm_contact_id c) start end
               (d\<lparr>invoices := invoices d @
                      [\<lparr>i_id = invoices_id_seq d, i_crm_contact_id = c_crm_contact_id c,
                        period_start = start, period_end = end,
                        amount_cents = a, dwolla_transfer_href = loc,
                        i_status = ''initiated'', created_at = now, updated_at = now\<rparr>],
                   invoices_id_seq := Suc (invoices_id_seq d)\<rparr>),
          r\<lparr>successful := successful r + 1,
            total_amount_cents := total_amount_cents r + a,
            total_amount_dollars := total_amount_dollars r + of_int a / 100\<rparr>)"
proof (cases "a \<le> 0")
  case True
  then show ?thesis by (intro skipped) (simp_all add: a_def)
next
  case pos: False
  show ?thesis
  proof (cases rule: billing_transaction_cases[of cfg net start "end" now c a d])
    case (failed e)
    with pos show ?thesis
      by (intro that(2)[of e]) (auto simp: a_def req_def Let_def)
  next
    case (billed loc)
    with pos show ?thesis
      by (intro that(3)[of loc]) (auto simp: a_def req_def Let_def)
  qed
qed

declare bill_customer.simps [simp del]

lemma filter_map_same:
  assumes "\<And>x. x \<in> set xs \<Longrightarrow> P (g x) = P x" and "\<And>x. x \<in> set xs \<Longrightarrow> P x \<Longrightarrow> g x = x"
  shows "filter P (map g xs) = filter P xs"
  using assms by (induction xs) auto

lemma bill_customer_other:
  assumes "bill_customer cfg net start end now (d, r) (c, u) = (d', r')"
    and "cid \<noteq> c_crm_contact_id c"
  shows "filter (\<lambda>x. u_crm_contact_id x = cid) (usage_ledger d') =
           filter (\<lambda>x. u_crm_contact_id x = cid) (usage_ledger d)
       \<and> filter (\<lambda>i. i_crm_contact_id i = cid) (invoices d') =
           filter (\<lambda>i. i_crm_contact_id i = cid) (invoices d)"
proof (cases rule: bill_customer_cases[of u cfg net start "end" now d r c])
  case skipped
  with assms show ?thesis by simp
next
  case (failed e)
  with assms show ?thesis by simp
next
  case (billed loc)
  with assms(1) have d': "d' = claim_usage (invoices_id_seq d) (c_crm_contact_id c) start end
               (d\<lparr>invoices := invoices d @
                      [\<lparr>i_id = invoices_id_seq d, i_crm_contact_id = c_crm_contact_id c,
                        period_start = start, period_end = end,
                        amount_cents = Math_round (u * PRICE_PER_UNIT_CENTS), dwolla_transfer_href = loc,
                        i_status = ''initiated'', created_at = now, updated_at = now\<rparr>],
                   invoices_id_seq := Suc (invoices_id_seq d)\<rparr>)"
    by simp
  have "filter (\<lambda>x. u_crm_contact_id x = cid) (usage_ledger d') =
           filter (\<lambda>x. u_crm_contact_id x = cid) (usage_ledger d)"
    unfolding d' claim_usage_def using assms(2)
    by (simp add: filter_map_same qualifies_def)
  moreover have "filter (\<lambda>i. i_crm_contact_id i = cid) (invoices d') =
           filter (\<lambda>i. i_crm_contact_id i = cid) (invoices d)"
    unfolding d' claim_usage_def using assms(2) by simp
  ultimately show ?thesis by simp
qed

lemma bill_customer_shape:
  assumes "bill_customer cfg net start end now (d, r) (c, u) = (d', r')"
  shows "customers d' = customers d"
    and "usage_ledger_id_seq d' = usage_ledger_id_seq d"
    and "invoices_id_seq d \<le> invoices_id_seq d'"
    and "map idempotency_key (usage_ledger d') = map idempotency_key (usage_ledger d)"
    and "ledger_monotone (usage_ledger d) (usage_ledger d')"
    and "\<exists>news. invoices d' = invoices d @ news \<and> length news \<le> 1 \<and>
           (\<forall>i\<in>set news. invoices_id_seq d \<le> i_id i \<and> i_id i < invoices_id_seq d'
                \<and> i_status i = ''initiated'')"
    and "\<exists>es. errors r' = errors r @ es"
proof -
  have "customers d' = customers d \<and> usage_ledger_id_seq d' = usage_ledger_id_seq d
     \<and> invoices_id_seq d \<le> invoices_id_seq d'
     \<and> map idempotency_key (usage_ledger d') = map idempotency_key (usage_ledger d)
     \<and> ledger_monotone (usage_ledger d) (usage_ledger d')
     \<and> (\<exists>news. invoices d' = invoices d @ news \<and> length news \<le> 1 \<and>
           (\<forall>i\<in>set news. invoices_id_seq d \<le> i_id i \<and> i_id i < invoices_id_seq d'
                \<and> i_status i = ''initiated''))
     \<and> (\<exists>es. errors r' = errors r @ es)"
  proof (cases rule: bill_customer_cases[of u cfg net start "end" now d r c])
    case skipped
    with assms show ?thesis by (auto simp: ledger_monotone_refl)
  next
    case (failed e)
    with assms show ?thesis by (auto simp: ledger_monotone_refl)
  next
    case (billed loc)
    with assms show ?thesis
      by (auto simp: claim_usage_def ledger_monotone_claim comp_def)
  qed
  then show "customers d' = customers d"
    and "usage_ledger_id_seq d' = usage_ledger_id_seq d"
    and "invoices_id_seq d \<le> invoices_id_seq d'"
    and "map idempotency_key (usage_ledger d') = map idempotency_key (usage_ledger d)"
    and "ledger_monotone (usage_ledger d) (usage_ledger d')"
    and "\<exists>news. invoices d' = invoices d @ news \<and> length news \<le> 1 \<and>
           (\<forall>i\<in>set news. invoices_id_seq d \<le> i_id i \<and> i_id i < invoices_id_seq d'
                \<and> i_status i = ''initiated'')"
    and "\<exists>es. errors r' = errors r @ es"
    by blast+
qed

lemma bill_customer_wf:
  assumes "bill_customer cfg net start end now (d, r) (c, u) = (d', r')" and "well_formed d"
  shows "well_formed d'"
proof (cases rule: bill_customer_cases[of u cfg net start "end" now d r c])
  case skipped
  with assms show ?thesis by simp
next
  case (failed e)
  with assms show ?thesis by simp
next
  case (billed loc)
  with assms(1) have d': "d' = claim_usage (invoices_id_seq d) (c_crm_contact_id c) start end
               (d\<lparr>invoices := invoices d @
                      [\<lparr>i_id = invoices_id_seq d, i_crm_contact_id = c_crm_contact_id c,
                        period_start = start, period_end = end,
                        amount_cents = Math_round (u * PRICE_PER_UNIT_CENTS), dwolla_transfer_href = loc,
                        i_status = ''initiated'', created_at = now, updated_at = now\<rparr>],
                   invoices_id_seq := Suc (invoices_id_seq d)\<rparr>)"
    by simp
  from assms(2) have fresh: "invoices_id_seq d \<notin> i_id ` set (invoices d)"
    by (auto simp: well_formed_def)
  have keys: "map idempotency_key (usage_ledger d') = map idempotency_key (usage_ledger d)"
    using bill_customer_shape(4)[OF assms(1)] .
  have cust: "customers d' = customers d"
    using bill_customer_shape(1)[OF assms(1)] .
  have refs: "\<forall>u\<in>set (usage_ledger d').
         case invoice_id u of
           None \<Rightarrow> True
         | Some k \<Rightarrow> (\<exists>i\<in>set (invoices d'). i_id i = k \<and> i_crm_contact_id i = u_crm_contact_id u)"
    using assms(2) unfolding d' well_formed_def claim_usage_def
    by (auto simp: qualifies_def split: option.splits)
  have ids: "distinct (map i_id (invoices d')) \<and> (\<forall>i\<in>set (invoices d'). i_id i < invoices_id_seq d')"
    using assms(2) fresh unfolding d' well_formed_def claim_usage_def
    by (auto simp: less_Suc_eq)
  from assms(2) keys cust refs ids show ?thesis
    unfolding well_formed_def by simp
qed

subsection \<open>The loop over the customers of a billing run\<close>

lemma bill_loop_shape:
  assumes "foldl (bill_customer cfg net start end now) (d, r) rows = (d', r')"
  shows "customers d' = customers d"
    and "usage_ledger_id_seq d' = usage_ledger_id_seq d"
    and "invoices_id_seq d \<le> invoices_id_seq d'"
    and "map idempotency_key (usage_ledger d') = map idempotency_key (usage_ledger d)"
    and "ledger_monotone (usage_ledger d) (usage_ledger d')"
    and "\<exists>news. invoices d' = invoices d @ news \<and>
           (\<forall>i\<in>set news. invoices_id_seq d \<le> i_id i \<and> i_id i < invoices_id_seq d'
                \<and> i_status i = ''initiated'')"
    and "\<exists>es. errors r' = errors r @ es"
proof -
  define R :: "database \<times> billing_results \<Rightarrow> database \<times> billing_results \<Rightarrow> bool" where
    "R s t \<longleftrightarrow> customers (fst t) = customers (fst s)
       \<and> usage_ledger_id_seq (fst t) = usage_ledger_id_seq (fst s)
       \<and> invoices_id_seq (fst s) \<le> invoices_id_seq (fst t)
       \<and> map idempotency_key (usage_ledger (fst t)) = map idempotency_key (usage_ledger (fst s))
       \<and> ledger_monotone (usage_ledger (fst s)) (usage_ledger (fst t))
       \<and> (\<exists>news. invoices (fst t) = invoices (fst s) @ news \<and>
           (\<forall>i\<in>set news. invoices_id_seq (fst s) \<le> i_id i \<and> i_id i < invoices_id_seq (fst t)
                \<and> i_status i = ''initiated''))
       \<and> (\<exists>es. errors (snd t) = errors (snd s) @ es)" for s t
  have refl: "R s s" for s
    by (simp add: R_def ledger_monotone_refl)
  have trans: "R s u" if st: "R s t" and tu: "R t u" for s t u
  proof -
    from st obtain n1 where n1: "invoices (fst t) = invoices (fst s) @ n1"
      "\<forall>i\<in>set n1. invoices_id_seq (fst s) \<le> i_id i \<and> i_id i < invoices_id_seq (fst t)
                \<and> i_status i = ''initiated''"
      unfolding R_def by blast
    from tu obtain n2 where n2: "invoices (fst u) = invoices (fst t) @ n2"
      "\<forall>i\<in>set n2. invoices_id_seq (fst t) \<le> i_id i \<and> i_id i < invoices_id_seq (fst u)
                \<and> i_status i = ''initiated''"
      unfolding R_def by blast
    from st tu have seq: "invoices_id_seq (fst s) \<le> invoices_id_seq (fst t)"
      "invoices_id_seq (fst t) \<le> invoices_id_seq (fst u)"
      unfolding R_def by simp_all
    have j: "invoices (fst u) = invoices (fst s) @ (n1 @ n2) \<and>
           (\<forall>i\<in>set (n1 @ n2). invoices_id_seq (fst s) \<le> i_id i \<and> i_id i < invoices_id_seq (fst u)
                \<and> i_status i = ''initiated'')"
      using n1 n2 seq by fastforce
    from st obtain e1 where e1: "errors (snd t) = errors (snd s) @ e1"
      unfolding R_def by blast
    from tu obtain e2 where e2: "errors (snd u) = errors (snd t) @ e2"
      unfolding R_def by blast
    have err: "errors (snd u) = errors (snd s) @ (e1 @ e2)"
      using e1 e2 by simp
    have mono: "ledger_monotone (usage_ledger (fst s)) (usage_ledger (fst u))"
      using st tu ledger_monotone_trans unfolding R_def by blast
    from st tu seq mono j err show ?thesis
      unfolding R_def by (intro conjI) (simp, simp, simp, simp, simp, blast, blast)
  qed
  have step: "R s (bill_customer cfg net start end now s x)" for s x
  proof -
    obtain d0 r0 where s: "s = (d0, r0)" by (cases s)
    obtain c u where x: "x = (c, u)" by (cases x)
    obtain d1 r1 where t: "bill_customer cfg net start end now (d0, r0) (c, u) = (d1, r1)"
      by (cases "bill_customer cfg net start end now (d0, r0) (c, u)")
    from bill_customer_shape[OF t] show ?thesis
      unfolding R_def s x t by (simp, blast)
  qed
  have "R (d, r) (foldl (bill_customer cfg net start end now) (d, r) rows)"
    by (rule foldl_rel[of R, OF refl trans step])
  with assms have "R (d, r) (d', r')" by simp
  then show "customers d' = customers d"
    and "usage_ledger_id_seq d' = usage_ledger_id_seq d"
    and "invoices_id_seq d \<le> invoices_id_seq d'"
    and "map idempotency_key (usage_ledger d') = map idempotency_key (usage_ledger d)"
    and "ledger_monotone (usage_ledger d) (usage_ledger d')"
    and "\<exists>news. invoices d' = invoices d @ news \<and>
           (\<forall>i\<in>set news. invoices_id_seq d \<le> i_id i \<and> i_id i < invoices_id_seq d'
                \<and> i_status i = ''initiated'')"
    and "\<exists>es. errors r' = errors r @ es"
    unfolding R_def by simp_all
qed

lemma bill_loop_wf:
  assumes "foldl (bill_customer cfg net start end now) (d, r) rows = (d', r')" and "well_formed d"
  shows "well_formed d'"
proof -
  have "well_formed (fst (foldl (bill_customer cfg net start end now) (d, r) rows))"
  proof (rule foldl_inv[where P = "\<lambda>s::database \<times> billing_results. well_formed (fst s)"])
    show "well_formed (fst (d, r))" using assms(2) by simp
  next
    fix s :: "database \<times> billing_results" and x assume "well_formed (fst s)"
    then show "well_formed (fst (bill_customer cfg net start end now s x))"
      using bill_customer_wf[of cfg net start "end" now "fst s" "snd s" "fst x" "snd x"]
      by (cases "bill_customer cfg net start end now s x") simp
  qed
  with assms(1) show ?thesis by simp
qed

lemma bill_loop_other:
  assumes "foldl (bill_customer cfg net start end now) (d, r) rows = (d', r')"
    and "\<forall>x\<in>set rows. c_crm_contact_id (fst x) \<noteq> cid"
  shows "filter (\<lambda>x. u_crm_contact_id x = cid) (usage_ledger d') =
           filter (\<lambda>x. u_crm_contact_id x = cid) (usage_ledger d)"
    and "filter (\<lambda>i. i_crm_contact_id i = cid) (invoices d') =
           filter (\<lambda>i. i_crm_contact_id i = cid) (invoices d)"
proof -
  define R :: "database \<times> billing_results \<Rightarrow> database \<times> billing_results \<Rightarrow> bool" where
    "R s t \<longleftrightarrow> filter (\<lambda>x. u_crm_contact_id x = cid) (usage_ledger (fst t)) =
           filter (\<lambda>x. u_crm_contact_id x = cid) (usage_ledger (fst s))
       \<and> filter (\<lambda>i. i_crm_contact_id i = cid) (invoices (fst t)) =
           filter (\<lambda>i. i_crm_contact_id i = cid) (invoices (fst s))" for s t
  have "R (d, r) (foldl (bill_customer cfg net start end now) (d, r) rows)"
  proof (rule foldl_rel[of R])
    fix s x assume x: "x \<in> set rows"
    with assms(2) have ne: "cid \<noteq> c_crm_contact_id (fst x)" by auto
    obtain d1 r1 where t: "bill_customer cfg net start end now (fst s, snd s) (fst x, snd x) = (d1, r1)"
      by (cases "bill_customer cfg net start end now (fst s, snd s) (fst x, snd x)")
    from bill_customer_other[OF t ne] t show "R s (bill_customer cfg net start end now s x)"
      by (simp add: R_def)
  qed (simp_all add: R_def)
  with assms(1) show "filter (\<lambda>x. u_crm_contact_id x = cid) (usage_ledger d') =
           filter (\<lambda>x. u_crm_contact_id x = cid) (usage_ledger d)"
    and "filter (\<lambda>i. i_crm_contact_id i = cid) (invoices d') =
           filter (\<lambda>i. i_crm_contact_id i = cid) (invoices d)"
    by (simp_all add: R_def)
qed

lemma bill_loop_counts_conj:
  "foldl (bill_customer cfg net start end now) (d, r) rows = (d', r') \<Longrightarrow>
     skipped r' = skipped r +
           length (filter (\<lambda>(c, u). Math_round (u * PRICE_PER_UNIT_CENTS) \<le> 0) rows)
     \<and> successful r' + failed r' + skipped r' = successful r + failed r + skipped r + length rows
     \<and> total_customers r' = total_customers r"
proof (induction rows arbitrary: d r)
  case Nil
  then show ?case by simp
next
  case (Cons x rows)
  obtain c u where x: "x = (c, u)" by (cases x)
  obtain d1 r1 where t: "bill_customer cfg net start end now (d, r) (c, u) = (d1, r1)"
    by (cases "bill_customer cfg net start end now (d, r) (c, u)")
  have one: "skipped r1 = skipped r + (if Math_round (u * PRICE_PER_UNIT_CENTS) \<le> 0 then 1 else 0)
     \<and> successful r1 + failed r1 + skipped r1 = successful r + failed r + skipped r + 1
     \<and> total_customers r1 = total_customers r"
    using t by (cases rule: bill_customer_cases[of u cfg net start "end" now d r c]) auto
  from Cons.prems have "foldl (bill_customer cfg net start end now) (d1, r1) rows = (d', r')"
    by (simp add: x t)
  from Cons.IH[OF this] one show ?case by (simp add: x)
qed

lemmas bill_loop_counts = bill_loop_counts_conj[THEN conjunct1]
  bill_loop_counts_conj[THEN conjunct2, THEN conjunct1]
  bill_loop_counts_conj[THEN conjunct2, THEN conjunct2]

lemma bill_loop_at:
  assumes "foldl (bill_customer cfg net start end now) (d, r) rows = (d', r')"
    and "distinct (map (\<lambda>x. c_crm_contact_id (fst x)) rows)"
    and "(c, u) \<in> set rows"
  shows "\<exists>d0 r0 d1 r1.
      bill_customer cfg net start end now (d0, r0) (c, u) = (d1, r1)
    \<and> filter (\<lambda>x. u_crm_contact_id x = c_crm_contact_id c) (usage_ledger d0) =
        filter (\<lambda>x. u_crm_contact_id x = c_crm_contact_id c) (usage_ledger d)
    \<and> filter (\<lambda>i. i_crm_contact_id i = c_crm_contact_id c) (invoices d0) =
        filter (\<lambda>i. i_crm_contact_id i = c_crm_contact_id c) (invoices d)
    \<and> invoices_id_seq d \<le> invoices_id_seq d0
    \<and> (well_formed d \<longrightarrow> well_formed d0)
    \<and> filter (\<lambda>x. u_crm_contact_id x = c_crm_contact_id c) (usage_ledger d') =
        filter (\<lambda>x. u_crm_contact_id x = c_crm_contact_id c) (usage_ledger d1)
    \<and> filter (\<lambda>i. i_crm_contact_id i = c_crm_contact_id c) (invoices d') =
        filter (\<lambda>i. i_crm_contact_id i = c_crm_contact_id c) (invoices d1)
    \<and> (\<exists>es. errors r' = errors r1 @ es)"
  using assms
proof (induction rows arbitrary: d r)
  case Nil
  then show ?case by simp
next
  case (Cons x rows)
  obtain cx ux where x: "x = (cx, ux)" by (cases x)
  obtain dx rx where t: "bill_customer cfg net start end now (d, r) (cx, ux) = (dx, rx)"
    by (cases "bill_customer cfg net start end now (d, r) (cx, ux)")
  from Cons.prems(1) have rest: "foldl (bill_customer cfg net start end now) (dx, rx) rows = (d', r')"
    by (simp add: x t)
  show ?case
  proof (cases "(c, u) = x")
    case True
    with x have [simp]: "cx = c" "ux = u" by simp_all
    from Cons.prems(2) have "c_crm_contact_id c \<notin> (\<lambda>x. c_crm_contact_id (fst x)) ` set rows"
      by (simp add: x)
    then have "\<forall>y\<in>set rows. c_crm_contact_id (fst y) \<noteq> c_crm_contact_id c"
      by (metis (mono_tags, lifting) image_eqI)
    from bill_loop_other[OF rest this] bill_loop_shape(7)[OF rest] t
    show ?thesis
      by (intro exI[of _ d] exI[of _ r] exI[of _ dx] exI[of _ rx]) simp
  next
    case False
    with Cons.prems(3) have mem: "(c, u) \<in> set rows" by simp
    with Cons.prems(2) have ne: "c_crm_contact_id c \<noteq> c_crm_contact_id cx"
      by (force simp: x)
    from Cons.prems(2) have dist: "distinct (map (\<lambda>x. c_crm_contact_id (fst x)) rows)" by simp
    from Cons.IH[OF rest dist mem] obtain d0 r0 d1 r1 where ih:
      "bill_customer cfg net start end now (d0, r0) (c, u) = (d1, r1)"
      "filter (\<lambda>x. u_crm_contact_id x = c_crm_contact_id c) (usage_ledger d0) =
        filter (\<lambda>x. u_crm_contact_id x = c_crm_contact_id c) (usage_ledger dx)"
      "filter (\<lambda>i. i_crm_contact_id i = c_crm_contact_id c) (invoices d0) =
        filter (\<lambda>i. i_crm_contact_id i = c_crm_contact_id c) (invoices dx)"
      "invoices_id_seq dx \<le> invoices_id_seq d0"
      "well_formed dx \<longrightarrow> well_formed d0"
      "filter (\<lambda>x. u_crm_contact_id x = c_crm_contact_id c) (usage_ledger d') =
        filter (\<lambda>x. u_crm_contact_id x = c_crm_contact_id c) (usage_ledger d1)"
      "filter (\<lambda>i. i_crm_contact_id i = c_crm_contact_id c) (invoices d') =
        filter (\<lambda>i. i_crm_contact_id i = c_crm_contact_id c) (invoices d1)"
      "\<exists>es. errors r' = errors r1 @ es"
      by blast
    from bill_customer_other[OF t ne] bill_customer_shape(3)[OF t] bill_customer_wf[OF t] ih
    show ?thesis
      by (intro exI[of _ d0] exI[of _ r0] exI[of _ d1] exI[of _ r1]) simp
  qed
qed

lemma bill_customer_skipped:
  "Math_round (u * PRICE_PER_UNIT_CENTS) \<le> 0 \<Longrightarrow>
     bill_customer cfg net start end now (d, r) (c, u) = (d, r\<lparr>skipped := skipped r + 1\<rparr>)"
  by (simp add: bill_customer.simps)

lemma bill_customer_failed:
  "0 < Math_round (u * PRICE_PER_UNIT_CENTS) \<Longrightarrow>
   fst (dwollaPost
          (net \<lparr>source_href = dwolla_funding_href c,
                destination_href = DWOLLA_YOUR_FUNDING_HREF cfg,
                amount_value = Math_round (u * PRICE_PER_UNIT_CENTS),
                meta_crm_contact_id = c_crm_contact_id c,
                meta_period_start = start, meta_period_end = end\<rparr>) 3) = Throws e \<Longrightarrow>
     bill_customer cfg net start end now (d, r) (c, u) =
       (d, r\<lparr>failed := failed r + 1, errors := errors r @ [(c_crm_contact_id c, e)]\<rparr>)"
  by (simp add: bill_customer.simps billing_transaction_def Let_def)

lemma bill_customer_billed:
  "0 < Math_round (u * PRICE_PER_UNIT_CENTS) \<Longrightarrow>
   Math_round (u * PRICE_PER_UNIT_CENTS) \<le> 2147483647 \<Longrightarrow>
   fst (dwollaPost
          (net \<lparr>source_href = dwolla_funding_href c,
                destination_href = DWOLLA_YOUR_FUNDING_HREF cfg,
                amount_value = Math_round (u * PRICE_PER_UNIT_CENTS),
                meta_crm_contact_id = c_crm_contact_id c,
                meta_period_start = start, meta_period_end = end\<rparr>) 3) = Returned loc \<Longrightarrow>
     bill_customer cfg net start end now (d, r) (c, u) =
         (claim_usage (invoices_id_seq d) (c_crm_contact_id c) start end
               (d\<lparr>invoices := invoices d @
                      [\<lparr>i_id = invoices_id_seq d, i_crm_contact_id = c_crm_contact_id c,
                        period_start = start, period_end = end,
                        amount_cents = Math_round (u * PRICE_PER_UNIT_CENTS),
                        dwolla_transfer_href = loc,
                        i_status = ''initiated'', created_at = now, updated_at = now\<rparr>],
                   invoices_id_seq := Suc (invoices_id_seq d)\<rparr>),
          r\<lparr>successful := successful r + 1,
            total_amount_cents := total_amount_cents r + Math_round (u * PRICE_PER_UNIT_CENTS),
            total_amount_dollars :=
              total_amount_dollars r + of_int (Math_round (u * PRICE_PER_UNIT_CENTS)) / 100\<rparr>)"
  by (simp add: bill_customer.simps billing_transaction_def insert_invoice_def Let_def)

lemma bill_customer_unbilled:
  assumes "bill_customer cfg net start end now (d, r) (c, u) = (d1, r1)"
    and "\<not> (0 < Math_round (u * PRICE_PER_UNIT_CENTS)
           \<and> Math_round (u * PRICE_PER_UNIT_CENTS) \<le> 2147483647
           \<and> (\<exists>loc. fst (dwollaPost
          (net \<lparr>source_href = dwolla_funding_href c,
                destination_href = DWOLLA_YOUR_FUNDING_HREF cfg,
                amount_value = Math_round (u * PRICE_PER_UNIT_CENTS),
                meta_crm_contact_id = c_crm_contact_id c,
                meta_period_start = start, meta_period_end = end\<rparr>) 3) = Returned loc))"
  shows "d1 = d"
  using assms
  by (cases rule: bill_customer_cases[of u cfg net start "end" now d r c]) auto

subsection \<open>The billing query and the run\<close>

lemma COALESCE_usage_totals:
  "COALESCE (usage_totals start end db cid) 0 =
     sum_list (map units (filter (qualifies start end cid) (usage_ledger db)))"
  by (simp add: usage_totals_def split: list.splits)

lemma billing_query_mem:
  "(c, u) \<in> set (billing_query start end db) \<longleftrightarrow>
     c \<in> set (customers db) \<and> c_status c = Some ''active'' \<and> dwolla_funding_href c \<noteq> None
     \<and> u = sum_list (map units (filter (qualifies start end (c_crm_contact_id c)) (usage_ledger db)))
     \<and> u > 0"
  unfolding billing_query_def COALESCE_usage_totals by auto

lemma billing_query_cids:
  "map (\<lambda>x. c_crm_contact_id (fst x)) (billing_query start end db) =
     map c_crm_contact_id
       (filter (\<lambda>c. c_status c = Some ''active'' \<and> dwolla_funding_href c \<noteq> None
                  \<and> COALESCE (usage_totals start end db (c_crm_contact_id c)) 0 > 0)
          (customers db))"
  unfolding billing_query_def
  by (induction "customers db" arbitrary: db) (simp_all add: filter_map comp_def)

lemma billing_query_distinct:
  "distinct (map c_crm_contact_id (customers db)) \<Longrightarrow>
     distinct (map (\<lambda>x. c_crm_contact_id (fst x)) (billing_query start end db))"
  unfolding billing_query_cids by (rule distinct_map_filter)

lemma bill_week_run:
  assumes "bill_week cfg net start end now None db (Some ''Bearer admin'') = (resp, db')"
  obtains results' where "resp = BillingSummary start end results'"
    "foldl (bill_customer cfg net start end now)
       (db, \<lparr>total_customers = length (billing_query start end db), successful = 0, failed = 0, skipped = 0,
             total_amount_cents = 0, total_amount_dollars = 0, errors = []\<rparr>)
       (billing_query start end db) = (db', results')"
  using assms unfolding bill_week_def
  by (auto simp: Let_def split: prod.splits)

lemma bill_week_not_run:
  "authorization \<noteq> Some ''Bearer admin'' \<or> fault \<noteq> None \<Longrightarrow>
     snd (bill_week cfg net start end now fault db authorization) = db"
  unfolding bill_week_def by (auto split: option.splits)

subsection \<open>The two webhook handlers, by cases\<close>

lemma truthy_string: "(truthy v \<and> is_string v) = (\<exists>s. v = JString s \<and> s \<noteq> [])"
  by (cases v) auto

lemma positive_number: "(\<not> isNaN n \<and> \<not> le_zero n) = (\<exists>r. n = Finite r \<and> r > 0)"
  by (cases n) auto

lemma validateUsageWebhook_Nil:
  "validateUsageWebhook L body = [] \<longleftrightarrow>
     (\<exists>s. b_crm_contact_id body = JString s \<and> s \<noteq> []) \<and>
     (\<exists>k. b_idempotency_key body = JString k \<and> k \<noteq> []) \<and>
     b_units body \<noteq> JUndefined \<and> b_units body \<noteq> JNull \<and>
     (\<exists>r. Number L (b_units body) = Finite r \<and> r > 0) \<and>
     truthy (b_occurred_at body) \<and> iso_valid L (b_occurred_at body)"
  unfolding validateUsageWebhook_def truthy_string[symmetric] positive_number[symmetric]
  by auto

lemma ghl_cases:
  assumes "createGhlUsageHandler L cfg fault db req = (resp, db')"
  obtains (rejected) "db' = db"
      "resp = SendStatus 401 \<or> resp = InvalidPayload (validateUsageWebhook L (g_body req))
         \<and> validateUsageWebhook L (g_body req) \<noteq> [] \<or> resp = InternalServerError"
  | (committed) cid key n t where
      "g_authorization req =
         Some (''Bearer '' @ (case GHL_BEARER cfg of None \<Rightarrow> ''undefined'' | Some s \<Rightarrow> s))"
      "validateUsageWebhook L (g_body req) = []" "fault = None"
      "b_crm_contact_id (g_body req) = JString cid" "cid \<noteq> []"
      "b_idempotency_key (g_body req) = JString key" "key \<noteq> []"
      "Number L (b_units (g_body req)) = Finite n" "0 < n"
      "Option.bind (pg_text L (b_occurred_at (g_body req))) (pg_timestamptz L) = Some t"
      "db' = snd (insert_usage key cid n t
                (upsert_customer cid (pg_text L (b_name (g_body req)))
                   (pg_text L (b_email (g_body req))) db))"
      "resp = UsageResult (key \<notin> set (map idempotency_key (usage_ledger db)))
                (if key \<notin> set (map idempotency_key (usage_ledger db))
                 then ''Usage recorded'' else ''Duplicate request ignored'')"
proof (cases "g_authorization req =
         Some (''Bearer '' @ (case GHL_BEARER cfg of None \<Rightarrow> ''undefined'' | Some s \<Rightarrow> s))
       \<and> validateUsageWebhook L (g_body req) = [] \<and> fault = None")
  case False
  with assms show ?thesis
    by (intro rejected) (auto simp: createGhlUsageHandler_def Let_def split: if_splits option.splits)
next
  case True
  then have auth: "g_authorization req =
         Some (''Bearer '' @ (case GHL_BEARER cfg of None \<Rightarrow> ''undefined'' | Some s \<Rightarrow> s))"
    and valid: "validateUsageWebhook L (g_body req) = []" and nofault: "fault = None"
    by simp_all
  from valid obtain cid key n where body:
    "b_crm_contact_id (g_body req) = JString cid" "cid \<noteq> []"
    "b_idempotency_key (g_body req) = JString key" "key \<noteq> []"
    "Number L (b_units (g_body req)) = Finite n" "0 < n"
    unfolding validateUsageWebhook_Nil by blast
  show ?thesis
  proof (cases "Option.bind (pg_text L (b_occurred_at (g_body req))) (pg_timestamptz L)")
    case None
    with assms auth valid nofault body show ?thesis
      by (intro rejected)
         (auto simp: createGhlUsageHandler_def usage_transaction_def Let_def)
  next
    case (Some t)
    have ups: "usage_ledger (upsert_customer cid nm em db) = usage_ledger db" for nm em
      by (simp add: upsert_customer_def)
    from assms auth valid nofault body Some show ?thesis
      by (intro committed[of cid key n t])
         (auto simp: createGhlUsageHandler_def usage_transaction_def Let_def insert_usage_def ups
               split: if_splits)
  qed
qed

lemma dwolla_cases:
  assumes "createDwollaWebhookHandler L cfg now fault db req = (resp, db')"
  obtains (ignored) "db' = db" "resp = SendStatus 200 \<or> resp = SendStatus 401"
  | (updated) target h href topic where "resp = SendStatus 200" "fault = None"
      "verifyDwollaWebhookSignature L req (DWOLLA_WEBHOOK_SECRET cfg) = Inr True"
      "json_href_topic L (d_body req) = Some (href, topic)"
      "truthy href" "pg_text L href = Some h"
      "topic = JString ''transfer_completed'' \<and> target = ''completed''
         \<or> topic = JString ''transfer_failed'' \<and> target = ''failed''"
      "db' = update_invoice_status target h now db"
  using assms unfolding createDwollaWebhookHandler_def
  by (auto split: sum.splits bool.splits option.splits prod.splits if_splits)

subsection \<open>The statements of the store\<close>

lemma upsert_customer_frame:
  "usage_ledger (upsert_customer cid nm em db) = usage_ledger db"
  "invoices (upsert_customer cid nm em db) = invoices db"
  "usage_ledger_id_seq (upsert_customer cid nm em db) = usage_ledger_id_seq db"
  "invoices_id_seq (upsert_customer cid nm em db) = invoices_id_seq db"
  by (simp_all add: upsert_customer_def)

lemma upsert_customer_ids:
  "map c_crm_contact_id (customers (upsert_customer cid nm em db)) =
     (if cid \<in> set (map c_crm_contact_id (customers db))
      then map c_crm_contact_id (customers db)
      else map c_crm_contact_id (customers db) @ [cid])"
  by (simp add: upsert_customer_def comp_def if_distrib[of c_crm_contact_id] cong: if_cong)

lemma upsert_customer_wf: "well_formed db \<Longrightarrow> well_formed (upsert_customer cid nm em db)"
  unfolding well_formed_def upsert_customer_frame upsert_customer_ids by auto

lemma insert_usage_frame:
  "customers (snd (insert_usage key cid n t db)) = customers db"
  "invoices (snd (insert_usage key cid n t db)) = invoices db"
  "invoices_id_seq (snd (insert_usage key cid n t db)) = invoices_id_seq db"
  by (simp_all add: insert_usage_def)

lemma insert_usage_ledger:
  "usage_ledger (snd (insert_usage key cid n t db)) =
     (if key \<in> set (map idempotency_key (usage_ledger db))
      then usage_ledger db
      else usage_ledger db @
             [\<lparr>u_id = usage_ledger_id_seq db, idempotency_key = key,
               u_crm_contact_id = cid, units = n, occurred_at = t, invoice_id = None\<rparr>])"
  by (simp add: insert_usage_def)

lemma insert_usage_wf: "well_formed db \<Longrightarrow> well_formed (snd (insert_usage key cid n t db))"
  unfolding well_formed_def insert_usage_frame insert_usage_ledger by auto

lemma update_invoice_status_frame:
  "customers (update_invoice_status target h now db) = customers db"
  "usage_ledger (update_invoice_status target h now db) = usage_ledger db"
  "usage_ledger_id_seq (update_invoice_status target h now db) = usage_ledger_id_seq db"
  "invoices_id_seq (update_invoice_status target h now db) = invoices_id_seq db"
  "length (invoices (update_invoice_status target h now db)) = length (invoices db)"
  by (simp_all add: update_invoice_status_def)

lemma update_invoice_status_keys:
  "map i_id (invoices (update_invoice_status target h now db)) = map i_id (invoices db)"
  "map i_crm_contact_id (invoices (update_invoice_status target h now db)) =
     map i_crm_contact_id (invoices db)"
  by (simp_all add: update_invoice_status_def comp_def if_distrib[of i_id]
        if_distrib[of i_crm_contact_id] cong: if_cong)


lemma update_invoice_status_wf:
  assumes "well_formed db"
  shows "well_formed (update_invoice_status target h now db)"
proof -
  let ?db' = "update_invoice_status target h now db"
  have key: "(\<lambda>i. (i_id i, i_crm_contact_id i)) ` set (invoices ?db') =
             (\<lambda>i. (i_id i, i_crm_contact_id i)) ` set (invoices db)"
  proof -
    have "map (\<lambda>i. (i_id i, i_crm_contact_id i)) (invoices ?db') =
          map (\<lambda>i. (i_id i, i_crm_contact_id i)) (invoices db)"
      by (simp add: update_invoice_status_def)
    then have "set (map (\<lambda>i. (i_id i, i_crm_contact_id i)) (invoices ?db')) =
          set (map (\<lambda>i. (i_id i, i_crm_contact_id i)) (invoices db))"
      by (rule arg_cong)
    then show ?thesis by (simp only: set_map)
  qed
  have ex: "(\<exists>i\<in>set (invoices ?db'). i_id i = k \<and> i_crm_contact_id i = c) =
            (\<exists>i\<in>set (invoices db). i_id i = k \<and> i_crm_contact_id i = c)" for k c
  proof -
    have "(\<exists>i\<in>set (invoices ?db'). i_id i = k \<and> i_crm_contact_id i = c) =
          ((k, c) \<in> (\<lambda>i. (i_id i, i_crm_contact_id i)) ` set (invoices ?db'))"
      by auto
    also have "\<dots> = ((k, c) \<in> (\<lambda>i. (i_id i, i_crm_contact_id i)) ` set (invoices db))"
      by (simp only: key)
    also have "\<dots> = (\<exists>i\<in>set (invoices db). i_id i = k \<and> i_crm_contact_id i = c)"
      by auto
    finally show ?thesis .
  qed
  have ids: "i_id ` set (invoices ?db') = i_id ` set (invoices db)"
  proof -
    have "set (map i_id (invoices ?db')) = set (map i_id (invoices db))"
      by (simp only: update_invoice_status_keys)
    then show ?thesis by (simp only: set_map)
  qed
  have lt: "(\<forall>i\<in>set (invoices ?db'). i_id i < invoices_id_seq db) =
            (\<forall>i\<in>set (invoices db). i_id i < invoices_id_seq db)"
  proof -
    have "(\<forall>i\<in>set (invoices ?db'). i_id i < invoices_id_seq db) =
          (\<forall>k\<in>i_id ` set (invoices ?db'). k < invoices_id_seq db)"
      by blast
    also have "\<dots> = (\<forall>k\<in>i_id ` set (invoices db). k < invoices_id_seq db)"
      by (simp only: ids)
    also have "\<dots> = (\<forall>i\<in>set (invoices db). i_id i < invoices_id_seq db)"
      by blast
    finally show ?thesis .
  qed
  from assms have a: "distinct (map c_crm_contact_id (customers db))"
    "distinct (map idempotency_key (usage_ledger db))"
    "distinct (map i_id (invoices db))"
    "\<forall>i\<in>set (invoices db). i_id i < invoices_id_seq db"
    "\<forall>u\<in>set (usage_ledger db).
         case invoice_id u of
           None \<Rightarrow> True
         | Some k \<Rightarrow> (\<exists>i\<in>set (invoices db). i_id i = k \<and> i_crm_contact_id i = u_crm_contact_id u)"
    unfolding well_formed_def by blast+
  show ?thesis
    unfolding well_formed_def update_invoice_status_frame update_invoice_status_keys ex lt
    using a by (intro conjI)
qed

subsection \<open>Every request keeps the store well formed\<close>

lemma ghl_wf:
  assumes "createGhlUsageHandler L cfg fault db req = (resp, db')" and "well_formed db"
  shows "well_formed db'"
  using assms
  by (cases rule: ghl_cases[OF assms(1)]) (simp_all add: insert_usage_wf upsert_customer_wf)

lemma dwolla_wf:
  assumes "createDwollaWebhookHandler L cfg now fault db req = (resp, db')" and "well_formed db"
  shows "well_formed db'"
  using assms
  by (cases rule: dwolla_cases[OF assms(1)]) (simp_all add: update_invoice_status_wf)

lemma bill_week_cases:
  assumes "bill_week cfg net start end now fault db authorization = (resp, db')"
  obtains (not_run) "db' = db" "resp = SendStatus 401 \<or> resp = InternalServerError"
  | (run) results' where "authorization = Some ''Bearer admin''" "fault = None"
      "resp = BillingSummary start end results'"
      "foldl (bill_customer cfg net start end now)
         (db, \<lparr>total_customers = length (billing_query start end db), successful = 0, failed = 0, skipped = 0,
               total_amount_cents = 0, total_amount_dollars = 0, errors = []\<rparr>)
         (billing_query start end db) = (db', results')"
proof (cases "authorization = Some ''Bearer admin'' \<and> fault = None")
  case True
  with assms have "bill_week cfg net start end now None db (Some ''Bearer admin'') = (resp, db')"
    by simp
  from bill_week_run[OF this] True show ?thesis
    by (metis run)
next
  case False
  with assms show ?thesis
    by (intro not_run) (auto simp: bill_week_def split: option.splits if_splits)
qed

lemma bill_week_wf:
  assumes "bill_week cfg net start end now fault db authorization = (resp, db')" and "well_formed db"
  shows "well_formed db'"
  using assms(1)
proof (cases rule: bill_week_cases)
  case not_run
  with assms show ?thesis by simp
next
  case (run results')
  from bill_loop_wf[OF run(4) assms(2)] show ?thesis .
qed

lemma handle_wf:
  assumes "well_formed db"
  shows "well_formed (snd (handle L cfg db r))"
proof (cases r)
  case (UsageRequest fault req)
  with ghl_wf[of L cfg fault db req, OF _ assms] show ?thesis
    by (cases "createGhlUsageHandler L cfg fault db req") simp
next
  case (BillRequest net start "end" now fault authorization)
  with bill_week_wf[of cfg net start "end" now fault db authorization, OF _ assms] show ?thesis
    by (cases "bill_week cfg net start end now fault db authorization") simp
next
  case (DwollaRequest now fault req)
  with dwolla_wf[of L cfg now fault db req, OF _ assms] show ?thesis
    by (cases "createDwollaWebhookHandler L cfg now fault db req") simp
qed

lemma serve_wf: "well_formed db \<Longrightarrow> well_formed (serve L cfg db rs)"
  unfolding serve_def by (rule foldl_inv) (simp_all add: handle_wf)

lemma wf_empty_database: "well_formed empty_database"
  by (simp add: well_formed_def empty_database_def)

lemma handle_ledger_monotone:
  "ledger_monotone (usage_ledger db) (usage_ledger (snd (handle L cfg db r)))"
proof (cases r)
  case (UsageRequest fault req)
  obtain resp db' where h: "createGhlUsageHandler L cfg fault db req = (resp, db')"
    by (cases "createGhlUsageHandler L cfg fault db req")
  then have "ledger_monotone (usage_ledger db) (usage_ledger db')"
    by (cases rule: ghl_cases[OF h])
       (simp_all add: ledger_monotone_refl insert_usage_ledger upsert_customer_frame
          ledger_monotone_append)
  with UsageRequest h show ?thesis by simp
next
  case (BillRequest net start "end" now fault authorization)
  obtain resp db' where h: "bill_week cfg net start end now fault db authorization = (resp, db')"
    by (cases "bill_week cfg net start end now fault db authorization")
  from h have "ledger_monotone (usage_ledger db) (usage_ledger db')"
  proof (cases rule: bill_week_cases)
    case not_run
    then show ?thesis by (simp add: ledger_monotone_refl)
  next
    case (run results')
    from bill_loop_shape(5)[OF run(4)] show ?thesis .
  qed
  with BillRequest h show ?thesis by simp
next
  case (DwollaRequest now fault req)
  obtain resp db' where h: "createDwollaWebhookHandler L cfg now fault db req = (resp, db')"
    by (cases "createDwollaWebhookHandler L cfg now fault db req")
  then have "ledger_monotone (usage_ledger db) (usage_ledger db')"
    by (cases rule: dwolla_cases[OF h])
       (simp_all add: ledger_monotone_refl update_invoice_status_frame)
  with DwollaRequest h show ?thesis by simp
qed

lemma serve_ledger_monotone:
  "ledger_monotone (usage_ledger db) (usage_ledger (serve L cfg db rs))"
  unfolding serve_def
  by (rule foldl_rel[where R = "\<lambda>s t. ledger_monotone (usage_ledger s) (usage_ledger t)"])
     (auto simp: ledger_monotone_refl handle_ledger_monotone intro: ledger_monotone_trans)

subsection \<open>Invoices are only added, and only their status changes\<close>

lemma status_evolves_refl: "status_evolves i i"
  by (simp add: status_evolves_def)

lemma status_evolves_trans: "status_evolves a b \<Longrightarrow> status_evolves b c \<Longrightarrow> status_evolves a c"
  by (cases a; cases b; cases c) (auto simp: status_evolves_def)

lemma status_evolves_id: "status_evolves i i' \<Longrightarrow> i_id i' = i_id i"
  by (cases i; cases i') (auto simp: status_evolves_def)

lemma list_all2_set2: "list_all2 P xs ys \<Longrightarrow> y \<in> set ys \<Longrightarrow> \<exists>x\<in>set xs. P x y"
  by (induction rule: list_all2_induct) auto

lemma invoices_extend_refl: "invoices_extend a a"
  by (simp add: invoices_extend_def list_all2_refl status_evolves_refl)

lemma invoices_extend_trans:
  assumes ab: "invoices_extend a b" and bc: "invoices_extend b c"
  shows "invoices_extend a c"
proof -
  let ?la = "length (invoices a)" and ?lb = "length (invoices b)"
  from ab bc have len: "?la \<le> ?lb" "?lb \<le> length (invoices c)"
    and seq: "invoices_id_seq a \<le> invoices_id_seq b" "invoices_id_seq b \<le> invoices_id_seq c"
    and ab2: "list_all2 status_evolves (invoices a) (take ?la (invoices b))"
    and bc2: "list_all2 status_evolves (invoices b) (take ?lb (invoices c))"
    and abn: "\<forall>i\<in>set (drop ?la (invoices b)). invoices_id_seq a \<le> i_id i"
    and bcn: "\<forall>i\<in>set (drop ?lb (invoices c)). invoices_id_seq b \<le> i_id i"
    by (auto simp: invoices_extend_def)
  from bc2 have "list_all2 status_evolves (take ?la (invoices b)) (take ?la (take ?lb (invoices c)))"
    by (rule list_all2_takeI)
  with len have "list_all2 status_evolves (take ?la (invoices b)) (take ?la (invoices c))"
    by (simp add: min_def)
  with ab2 have old: "list_all2 status_evolves (invoices a) (take ?la (invoices c))"
    using list_all2_trans[of status_evolves status_evolves status_evolves] status_evolves_trans
    by blast
  have new: "invoices_id_seq a \<le> i_id i" if i: "i \<in> set (drop ?la (invoices c))" for i
  proof -
    have split: "drop ?la (invoices c) = drop ?la (take ?lb (invoices c)) @ drop ?lb (invoices c)"
      using len by (metis append_take_drop_id drop_append length_take min.absorb2
          diff_is_0_eq drop_0)
    from i split consider "i \<in> set (drop ?la (take ?lb (invoices c)))" | "i \<in> set (drop ?lb (invoices c))"
      by auto
    then show ?thesis
    proof cases
      case 1
      from bc2 have "list_all2 status_evolves (drop ?la (invoices b)) (drop ?la (take ?lb (invoices c)))"
        by (rule list_all2_dropI)
      from list_all2_set2[OF this 1] obtain j where "j \<in> set (drop ?la (invoices b))" "status_evolves j i"
        by blast
      with abn status_evolves_id show ?thesis by metis
    next
      case 2
      with bcn seq show ?thesis by force
    qed
  qed
  from len seq old new show ?thesis
    by (simp add: invoices_extend_def)
qed

lemma invoices_extend_same:
  "invoices b = invoices a \<Longrightarrow> invoices_id_seq b = invoices_id_seq a \<Longrightarrow> invoices_extend a b"
  by (simp add: invoices_extend_def list_all2_refl status_evolves_refl)

lemma invoices_extend_append:
  "invoices b = invoices a @ news \<Longrightarrow> invoices_id_seq a \<le> invoices_id_seq b \<Longrightarrow>
     \<forall>i\<in>set news. invoices_id_seq a \<le> i_id i \<Longrightarrow> invoices_extend a b"
  by (simp add: invoices_extend_def list_all2_refl status_evolves_refl)

lemma invoices_extend_update:
  "(target = ''completed'' \<or> target = ''failed'') \<Longrightarrow>
     invoices_extend db (update_invoice_status target h now db)"
  unfolding invoices_extend_def update_invoice_status_frame
  by (auto simp: update_invoice_status_def list_all2_conv_all_nth status_evolves_def)

lemma handle_invoices_extend: "invoices_extend db (snd (handle L cfg db r))"
proof (cases r)
  case (UsageRequest fault req)
  obtain resp db' where h: "createGhlUsageHandler L cfg fault db req = (resp, db')"
    by (cases "createGhlUsageHandler L cfg fault db req")
  then have "invoices_extend db db'"
    by (cases rule: ghl_cases[OF h])
       (simp_all add: invoices_extend_refl invoices_extend_same insert_usage_frame
          upsert_customer_frame)
  with UsageRequest h show ?thesis by simp
next
  case (BillRequest net start "end" now fault authorization)
  obtain resp db' where h: "bill_week cfg net start end now fault db authorization = (resp, db')"
    by (cases "bill_week cfg net start end now fault db authorization")
  from h have "invoices_extend db db'"
  proof (cases rule: bill_week_cases)
    case not_run
    then show ?thesis by (simp add: invoices_extend_refl)
  next
    case (run results')
    from bill_loop_shape(6)[OF run(4)] bill_loop_shape(3)[OF run(4)] show ?thesis
      by (auto intro: invoices_extend_append)
  qed
  with BillRequest h show ?thesis by simp
next
  case (DwollaRequest now fault req)
  obtain resp db' where h: "createDwollaWebhookHandler L cfg now fault db req = (resp, db')"
    by (cases "createDwollaWebhookHandler L cfg now fault db req")
  then have "invoices_extend db db'"
    by (cases rule: dwolla_cases[OF h])
       (auto simp: invoices_extend_refl intro: invoices_extend_update)
  with DwollaRequest h show ?thesis by simp
qed

lemma serve_invoices_extend: "invoices_extend db (serve L cfg db rs)"
  unfolding serve_def
  by (rule foldl_rel[where R = invoices_extend])
     (auto simp: invoices_extend_refl handle_invoices_extend intro: invoices_extend_trans)

lemma claim_mono_claimed: "claim_mono u u' \<Longrightarrow> invoice_id u = Some k \<Longrightarrow> u' = u"
  by (auto simp: claim_mono_def)

lemma ledger_monotone_claimed:
  assumes "ledger_monotone old new" and "u \<in> set old" and "invoice_id u = Some k"
  shows "u \<in> set new"
proof -
  from assms(2) obtain n where n: "n < length old" "old ! n = u"
    by (auto simp: in_set_conv_nth)
  from assms(1) have len: "length old \<le> length new"
    and all: "list_all2 claim_mono old (take (length old) new)"
    by (simp_all add: ledger_monotone_def)
  from all n(1) have "claim_mono (old ! n) (take (length old) new ! n)"
    by (rule list_all2_nthD)
  with n have "claim_mono u (new ! n)" by simp
  then have "new ! n = u" using assms(3) by (rule claim_mono_claimed)
  with n len show ?thesis by (metis nth_mem order_less_le_trans)
qed

lemma qualifying_unbilled:
  "billing_query start end db =
     billing_query start end (db\<lparr>usage_ledger := filter (\<lambda>u. invoice_id u = None) (usage_ledger db)\<rparr>)"
proof -
  have "filter (qualifies start end cid) (filter (\<lambda>u. invoice_id u = None) (usage_ledger db)) =
        filter (qualifies start end cid) (usage_ledger db)" for cid
    by (auto simp: qualifies_def intro: filter_cong)
  then show ?thesis
    by (simp add: billing_query_def usage_totals_def)
qed

subsection \<open>What a billing run does for one customer\<close>

lemma filter_map_commute:
  assumes "\<And>x. x \<in> set xs \<Longrightarrow> P (g x) = P x"
  shows "filter P (map g xs) = map g (filter P xs)"
  using assms by (induction xs) auto

lemma bill_loop_unbilled:
  assumes loop: "foldl (bill_customer cfg net start end now) (d, r) rows = (d', r')"
    and dist: "distinct (map (\<lambda>x. c_crm_contact_id (fst x)) rows)"
    and mem: "(c, u) \<in> set rows"
    and no: "\<not> (0 < Math_round (u * PRICE_PER_UNIT_CENTS)
           \<and> Math_round (u * PRICE_PER_UNIT_CENTS) \<le> 2147483647
           \<and> (\<exists>loc. fst (dwollaPost
          (net \<lparr>source_href = dwolla_funding_href c,
                destination_href = DWOLLA_YOUR_FUNDING_HREF cfg,
                amount_value = Math_round (u * PRICE_PER_UNIT_CENTS),
                meta_crm_contact_id = c_crm_contact_id c,
                meta_period_start = start, meta_period_end = end\<rparr>) 3) = Returned loc))"
  shows "filter (\<lambda>x. u_crm_contact_id x = c_crm_contact_id c) (usage_ledger d') =
           filter (\<lambda>x. u_crm_contact_id x = c_crm_contact_id c) (usage_ledger d)"
    and "filter (\<lambda>i. i_crm_contact_id i = c_crm_contact_id c) (invoices d') =
           filter (\<lambda>i. i_crm_contact_id i = c_crm_contact_id c) (invoices d)"
proof -
  from bill_loop_at[OF loop dist mem] obtain d0 r0 d1 r1 where at:
      "bill_customer cfg net start end now (d0, r0) (c, u) = (d1, r1)"
      "filter (\<lambda>x. u_crm_contact_id x = c_crm_contact_id c) (usage_ledger d0) =
        filter (\<lambda>x. u_crm_contact_id x = c_crm_contact_id c) (usage_ledger d)"
      "filter (\<lambda>i. i_crm_contact_id i = c_crm_contact_id c) (invoices d0) =
        filter (\<lambda>i. i_crm_contact_id i = c_crm_contact_id c) (invoices d)"
      "filter (\<lambda>x. u_crm_contact_id x = c_crm_contact_id c) (usage_ledger d') =
        filter (\<lambda>x. u_crm_contact_id x = c_crm_contact_id c) (usage_ledger d1)"
      "filter (\<lambda>i. i_crm_contact_id i = c_crm_contact_id c) (invoices d') =
        filter (\<lambda>i. i_crm_contact_id i = c_crm_contact_id c) (invoices d1)"
    by blast
  from bill_customer_unbilled[OF at(1) no] have "d1 = d0" .
  with at show "filter (\<lambda>x. u_crm_contact_id x = c_crm_contact_id c) (usage_ledger d') =
           filter (\<lambda>x. u_crm_contact_id x = c_crm_contact_id c) (usage_ledger d)"
    and "filter (\<lambda>i. i_crm_contact_id i = c_crm_contact_id c) (invoices d') =
           filter (\<lambda>i. i_crm_contact_id i = c_crm_contact_id c) (invoices d)"
    by simp_all
qed

lemma bill_loop_failed_error:
  assumes loop: "foldl (bill_customer cfg net start end now) (d, r) rows = (d', r')"
    and dist: "distinct (map (\<lambda>x. c_crm_contact_id (fst x)) rows)"
    and mem: "(c, u) \<in> set rows"
    and pos: "0 < Math_round (u * PRICE_PER_UNIT_CENTS)"
    and thr: "fst (dwollaPost
          (net \<lparr>source_href = dwolla_funding_href c,
                destination_href = DWOLLA_YOUR_FUNDING_HREF cfg,
                amount_value = Math_round (u * PRICE_PER_UNIT_CENTS),
                meta_crm_contact_id = c_crm_contact_id c,
                meta_period_start = start, meta_period_end = end\<rparr>) 3) = Throws e"
  shows "(c_crm_contact_id c, e) \<in> set (errors r')"
proof -
  from bill_loop_at[OF loop dist mem] obtain d0 r0 d1 r1 where at:
      "bill_customer cfg net start end now (d0, r0) (c, u) = (d1, r1)"
      "\<exists>es. errors r' = errors r1 @ es"
    by blast
  have "bill_customer cfg net start end now (d0, r0) (c, u) =
       (d0, r0\<lparr>failed := failed r0 + 1, errors := errors r0 @ [(c_crm_contact_id c, e)]\<rparr>)"
    by (rule bill_customer_failed) (rule pos, rule thr)
  with at(1) have "r1 = r0\<lparr>failed := failed r0 + 1, errors := errors r0 @ [(c_crm_contact_id c, e)]\<rparr>"
    by simp
  then have "errors r1 = errors r0 @ [(c_crm_contact_id c, e)]" by simp
  with at(2) show ?thesis by auto
qed

lemma bill_loop_billed:
  assumes loop: "foldl (bill_customer cfg net start end now) (d, r) rows = (d', r')"
    and dist: "distinct (map (\<lambda>x. c_crm_contact_id (fst x)) rows)"
    and mem: "(c, u) \<in> set rows"
    and pos: "0 < Math_round (u * PRICE_PER_UNIT_CENTS)"
    and rng: "Math_round (u * PRICE_PER_UNIT_CENTS) \<le> 2147483647"
    and ret: "fst (dwollaPost
          (net \<lparr>source_href = dwolla_funding_href c,
                destination_href = DWOLLA_YOUR_FUNDING_HREF cfg,
                amount_value = Math_round (u * PRICE_PER_UNIT_CENTS),
                meta_crm_contact_id = c_crm_contact_id c,
                meta_period_start = start, meta_period_end = end\<rparr>) 3) = Returned loc"
  shows "\<exists>k\<ge>invoices_id_seq d.
      filter (\<lambda>i. i_crm_contact_id i = c_crm_contact_id c) (invoices d') =
        filter (\<lambda>i. i_crm_contact_id i = c_crm_contact_id c) (invoices d) @
          [\<lparr>i_id = k, i_crm_contact_id = c_crm_contact_id c,
            period_start = start, period_end = end,
            amount_cents = Math_round (u * PRICE_PER_UNIT_CENTS), dwolla_transfer_href = loc,
            i_status = ''initiated'', created_at = now, updated_at = now\<rparr>]
    \<and> filter (\<lambda>x. u_crm_contact_id x = c_crm_contact_id c) (usage_ledger d') =
        map (\<lambda>x. if qualifies start end (c_crm_contact_id c) x
                  then x\<lparr>invoice_id := Some k\<rparr> else x)
          (filter (\<lambda>x. u_crm_contact_id x = c_crm_contact_id c) (usage_ledger d))"
proof -
  from bill_loop_at[OF loop dist mem] obtain d0 r0 d1 r1 where at:
      "bill_customer cfg net start end now (d0, r0) (c, u) = (d1, r1)"
      "filter (\<lambda>x. u_crm_contact_id x = c_crm_contact_id c) (usage_ledger d0) =
        filter (\<lambda>x. u_crm_contact_id x = c_crm_contact_id c) (usage_ledger d)"
      "filter (\<lambda>i. i_crm_contact_id i = c_crm_contact_id c) (invoices d0) =
        filter (\<lambda>i. i_crm_contact_id i = c_crm_contact_id c) (invoices d)"
      "invoices_id_seq d \<le> invoices_id_seq d0"
      "filter (\<lambda>x. u_crm_contact_id x = c_crm_contact_id c) (usage_ledger d') =
        filter (\<lambda>x. u_crm_contact_id x = c_crm_contact_id c) (usage_ledger d1)"
      "filter (\<lambda>i. i_crm_contact_id i = c_crm_contact_id c) (invoices d') =
        filter (\<lambda>i. i_crm_contact_id i = c_crm_contact_id c) (invoices d1)"
    by blast
  let ?g = "\<lambda>x. if qualifies start end (c_crm_contact_id c) x
                  then x\<lparr>invoice_id := Some (invoices_id_seq d0)\<rparr> else x"
  have "bill_customer cfg net start end now (d0, r0) (c, u) =
         (claim_usage (invoices_id_seq d0) (c_crm_contact_id c) start end
               (d0\<lparr>invoices := invoices d0 @
                      [\<lparr>i_id = invoices_id_seq d0, i_crm_contact_id = c_crm_contact_id c,
                        period_start = start, period_end = end,
                        amount_cents = Math_round (u * PRICE_PER_UNIT_CENTS),
                        dwolla_transfer_href = loc,
                        i_status = ''initiated'', created_at = now, updated_at = now\<rparr>],
                   invoices_id_seq := Suc (invoices_id_seq d0)\<rparr>),
          r0\<lparr>successful := successful r0 + 1,
            total_amount_cents := total_amount_cents r0 + Math_round (u * PRICE_PER_UNIT_CENTS),
            total_amount_dollars :=
              total_amount_dollars r0 + of_int (Math_round (u * PRICE_PER_UNIT_CENTS)) / 100\<rparr>)"
    by (rule bill_customer_billed) (rule pos, rule rng, rule ret)
  with at(1)
  have d1: "invoices d1 = invoices d0 @
          [\<lparr>i_id = invoices_id_seq d0, i_crm_contact_id = c_crm_contact_id c,
            period_start = start, period_end = end,
            amount_cents = Math_round (u * PRICE_PER_UNIT_CENTS), dwolla_transfer_href = loc,
            i_status = ''initiated'', created_at = now, updated_at = now\<rparr>]"
    "usage_ledger d1 = map ?g (usage_ledger d0)"
    by (auto simp: claim_usage_def)
  have "filter (\<lambda>x. u_crm_contact_id x = c_crm_contact_id c) (map ?g (usage_ledger d0)) =
        map ?g (filter (\<lambda>x. u_crm_contact_id x = c_crm_contact_id c) (usage_ledger d0))"
    by (rule filter_map_commute) simp
  with at d1 show ?thesis
    by (intro exI[of _ "invoices_id_seq d0"]) simp
qed

lemma bill_loop_failed_count:
  "foldl (bill_customer cfg net start end now) (d, r) rows = (d', r') \<Longrightarrow>
     failed r' + length (errors r) = failed r + length (errors r')"
proof (induction rows arbitrary: d r)
  case Nil
  then show ?case by simp
next
  case (Cons x rows)
  obtain c u where x: "x = (c, u)" by (cases x)
  obtain d1 r1 where t: "bill_customer cfg net start end now (d, r) (c, u) = (d1, r1)"
    by (cases "bill_customer cfg net start end now (d, r) (c, u)")
  have one: "failed r1 + length (errors r) = failed r + length (errors r1)"
    using t by (cases rule: bill_customer_cases[of u cfg net start "end" now d r c]) auto
  from Cons.prems have "foldl (bill_customer cfg net start end now) (d1, r1) rows = (d', r')"
    by (simp add: x t)
  from Cons.IH[OF this] one show ?case by simp
qed






lemma new_invoices_of:
  assumes "invoices d' = invoices d @ news"
  shows "filter P (drop (length (invoices d)) (invoices d')) = filter P news"
    and "filter P (invoices d') = filter P (invoices d) @ filter P news"
  using assms by simp_all



lemma qualifying_of_customer:
  "filter (qualifies start end cid) xs =
     filter (qualifies start end cid) (filter (\<lambda>x. u_crm_contact_id x = cid) xs)"
  by (auto simp: qualifies_def intro: filter_cong)

subsection \<open>The loop of the transfer request\<close>

text \<open>With at least one attempt allowed, the loop returns a location or throws.\<close>

lemma attempt_step_last:
  "attempt_step net retries retries \<noteq> Continue es"
  by (auto simp: attempt_step_def catch_error_def Let_def split: attempt_outcome.splits)

lemma dwollaPost_from_returns_or_throws:
  "attempt \<le> retries \<Longrightarrow> fst (dwollaPost_from net retries attempt) \<noteq> ReturnedUndefined"
proof (induction net retries attempt rule: dwollaPost_from.induct)
  case (1 net retries attempt)
  show ?case
  proof (cases "attempt_step net retries attempt")
    case (Done r es)
    then have "r \<noteq> ReturnedUndefined"
      by (auto simp: attempt_step_def catch_error_def Let_def
               split: attempt_outcome.splits if_splits)
    with Done "1.prems" show ?thesis
      by (simp add: dwollaPost_from.simps[of net retries attempt])
  next
    case (Continue es)
    with attempt_step_last[of net retries es] have "attempt \<noteq> retries" by auto
    with "1.prems" have le: "Suc attempt \<le> retries" by simp
    from "1.IH"[OF "1.prems" Continue le]
    have "fst (dwollaPost_from net retries (Suc attempt)) \<noteq> ReturnedUndefined" .
    with Continue "1.prems" show ?thesis
      by (cases "dwollaPost_from net retries (Suc attempt)")
         (simp add: dwollaPost_from.simps[of net retries attempt])
  qed
qed

lemma dwollaPost_returns_or_throws:
  "1 \<le> retries \<Longrightarrow> fst (dwollaPost net retries) \<noteq> ReturnedUndefined"
  unfolding dwollaPost_def by (rule dwollaPost_from_returns_or_throws)


subsection \<open>The reconciler\<close>

lemma update_invoice_status_idem:
  "update_invoice_status target h now2 (update_invoice_status target h now db) =
     update_invoice_status target h now db"
  by (simp add: update_invoice_status_def comp_def cong: if_cong)

lemma update_invoice_status_none:
  "\<forall>i\<in>set (invoices db). dwolla_transfer_href i \<noteq> Some h \<Longrightarrow>
     update_invoice_status target h now db = db"
  by (simp add: update_invoice_status_def map_idI)

lemma dwolla_response:
  "fst (createDwollaWebhookHandler L cfg now fault db req) =
     (if verifyDwollaWebhookSignature L req (DWOLLA_WEBHOOK_SECRET cfg) = Inr False
      then SendStatus 401 else SendStatus 200)"
  by (auto simp: createDwollaWebhookHandler_def
           split: sum.splits bool.splits option.splits prod.splits)

lemma dwolla_unverified:
  "verifyDwollaWebhookSignature L req (DWOLLA_WEBHOOK_SECRET cfg) \<noteq> Inr True \<Longrightarrow>
     snd (createDwollaWebhookHandler L cfg now fault db req) = db"
  by (auto simp: createDwollaWebhookHandler_def
           split: sum.splits bool.splits option.splits prod.splits)

lemma verify_set:
  assumes "secret = Some sec" "sec \<noteq> []"
  shows "verifyDwollaWebhookSignature L req secret = Inr True \<longleftrightarrow>
           x_request_signature_sha256 req = Some (hmac_sha256_hex L sec (d_body req))
           \<and> hmac_sha256_hex L sec (d_body req) \<noteq> []"
  using assms
  by (auto simp: verifyDwollaWebhookSignature_def Let_def split: option.splits)

lemma verify_rejects:
  assumes "secret = Some sec" "sec \<noteq> []"
  shows "verifyDwollaWebhookSignature L req secret = Inr False \<longleftrightarrow>
           (case x_request_signature_sha256 req of
              None \<Rightarrow> True
            | Some s \<Rightarrow> s = [] \<or> length s = length (hmac_sha256_hex L sec (d_body req))
                          \<and> s \<noteq> hmac_sha256_hex L sec (d_body req))"
  using assms
  by (auto simp: verifyDwollaWebhookSignature_def Let_def split: option.splits)

lemma handle_new_initiated:
  "\<forall>i\<in>set (drop (length (invoices db)) (invoices (snd (handle L cfg db r)))).
     i_status i = ''initiated''"
proof (cases r)
  case (UsageRequest fault req)
  obtain resp db' where h: "createGhlUsageHandler L cfg fault db req = (resp, db')"
    by (cases "createGhlUsageHandler L cfg fault db req")
  then have "invoices db' = invoices db"
    by (cases rule: ghl_cases[OF h]) (simp_all add: insert_usage_frame upsert_customer_frame)
  with UsageRequest h show ?thesis by simp
next
  case (BillRequest net start "end" now fault authorization)
  obtain resp db' where h: "bill_week cfg net start end now fault db authorization = (resp, db')"
    by (cases "bill_week cfg net start end now fault db authorization")
  from h have "\<forall>i\<in>set (drop (length (invoices db)) (invoices db')). i_status i = ''initiated''"
  proof (cases rule: bill_week_cases)
    case not_run
    then show ?thesis by simp
  next
    case (run results')
    from bill_loop_shape(6)[OF run(4)] show ?thesis by auto
  qed
  with BillRequest h show ?thesis by simp
next
  case (DwollaRequest now fault req)
  obtain resp db' where h: "createDwollaWebhookHandler L cfg now fault db req = (resp, db')"
    by (cases "createDwollaWebhookHandler L cfg now fault db req")
  then have "length (invoices db') = length (invoices db)"
    by (cases rule: dwolla_cases[OF h]) (simp_all add: update_invoice_status_frame)
  with DwollaRequest h show ?thesis by simp
qed


section \<open>The claims\<close>

subsection \<open>Facts about the running example\<close>

lemmas example_defs =
  unbilled_store_def billed_store_def customer_C1_def usage_C1_def invoice_C1_def
  accepting_net_def rejecting_net_def example_config_def example_bill_request_def
  customer_C2_def usage_C2_def invoice_C2_def two_customer_store_def half_billed_store_def
  selective_net_def

lemmas billing_defs =
  bill_week_def billing_query_def usage_totals_def qualifies_def bill_customer.simps
  billing_transaction_def insert_invoice_def claim_usage_def dwollaPost_def
  dwollaPost_from.simps attempt_step_def catch_error_def Let_def

lemma Math_round_examples:
  "Math_round (3 * PRICE_PER_UNIT_CENTS) = 1200"
  "Math_round (5 / 2 * PRICE_PER_UNIT_CENTS) = 1000"
  "Math_round (5 * PRICE_PER_UNIT_CENTS / 2) = 1000"
  by (simp_all add: Math_round_def PRICE_PER_UNIT_CENTS_def floor_eq_iff)

lemma accepting_run:
  "bill_week example_config accepting_net 1736700000 1737304800 1737400000 None unbilled_store
     (Some ''Bearer admin'') =
   (BillingSummary 1736700000 1737304800
      \<lparr>total_customers = 1, successful = 1, failed = 0, skipped = 0,
        total_amount_cents = 1200, total_amount_dollars = 12, errors = []\<rparr>,
    billed_store)"
  by (simp add: billing_defs example_defs Math_round_examples)

lemma selective_run:
  "bill_week example_config selective_net 1736700000 1737304800 1737400000 None two_customer_store
     (Some ''Bearer admin'') =
   (BillingSummary 1736700000 1737304800
      \<lparr>total_customers = 2, successful = 1, failed = 1, skipped = 0,
        total_amount_cents = 1000, total_amount_dollars = 10,
        errors = [(''C1'', DwollaApiError 400 ''unverified funding source'')]\<rparr>,
    half_billed_store)"
  by (simp add: billing_defs example_defs Math_round_examples)

lemma well_formed_examples:
  "well_formed unbilled_store" "well_formed two_customer_store" "well_formed billed_store"
  by (simp_all add: well_formed_def example_defs)

lemma selective_rows:
  "billing_query 1736700000 1737304800 two_customer_store = [(customer_C1, 3), (customer_C2, 5 / 2)]"
  by (simp add: billing_defs example_defs)

lemma selective_throws:
  "fst (dwollaPost
          (selective_net \<lparr>source_href = dwolla_funding_href customer_C1,
                destination_href = DWOLLA_YOUR_FUNDING_HREF example_config,
                amount_value = Math_round (3 * PRICE_PER_UNIT_CENTS),
                meta_crm_contact_id = c_crm_contact_id customer_C1,
                meta_period_start = 1736700000, meta_period_end = 1737304800\<rparr>) 3) =
     Throws (DwollaApiError 400 ''unverified funding source'')"
  by (simp add: billing_defs example_defs)


lemmas reconciler_defs =
  createDwollaWebhookHandler_def verifyDwollaWebhookSignature_def update_invoice_status_def
  example_lib_def example_config_def unsigned_config_def completed_notification_def
  failed_notification_def forged_notification_def unsigned_notification_def
  unknown_notification_def billed_store_def failed_store_def completed_store_def
  invoice_C1_def customer_C1_def usage_C1_def Let_def

lemma late_rerun:
  "serve example_lib example_config late_usage_store [example_bill_request accepting_net] =
     rebilled_store"
  by (simp add: serve_def billing_defs example_defs late_usage_store_def rebilled_store_def
      usage_C1_late_def Math_round_def PRICE_PER_UNIT_CENTS_def floor_eq_iff)

lemma well_formed_late: "well_formed late_usage_store"
  by (simp add: well_formed_def example_defs late_usage_store_def usage_C1_late_def)

subsection \<open>C1: no double billing\<close>

text \<open>
  Claim C1. From any well-formed store and along any sequence of requests, a usage row only
  ever changes by its \<^verbatim>\<open>invoice_id\<close> going from NULL to an invoice id; a row that is
  already claimed stays in the ledger as it is, and no invoice created later carries the id
  it refers to. The rows a billing run sums and claims all have a NULL \<^verbatim>\<open>invoice_id\<close>,
  and the billing query gives the same answer when the claimed rows are removed.
\<close>

theorem no_double_billing:
  assumes "well_formed db"
  shows "ledger_monotone (usage_ledger db) (usage_ledger (serve L cfg db rs)) \<and>
     (\<forall>u\<in>set (usage_ledger db). invoice_id u \<noteq> None \<longrightarrow>
         u \<in> set (usage_ledger (serve L cfg db rs)) \<and>
         (\<forall>j\<in>set (drop (length (invoices db)) (invoices (serve L cfg db rs))).
             Some (i_id j) \<noteq> invoice_id u)) \<and>
     (\<forall>start end cid. \<forall>u\<in>set (filter (qualifies start end cid) (usage_ledger db)).
         invoice_id u = None) \<and>
     (\<forall>start end. billing_query start end db =
         billing_query start end
           (db\<lparr>usage_ledger := filter (\<lambda>u. invoice_id u = None) (usage_ledger db)\<rparr>))"
proof (intro conjI ballI impI allI)
  show "ledger_monotone (usage_ledger db) (usage_ledger (serve L cfg db rs))"
    by (rule serve_ledger_monotone)
next
  fix u assume u: "u \<in> set (usage_ledger db)" and claimed: "invoice_id u \<noteq> None"
  then obtain k where k: "invoice_id u = Some k" by auto
  from ledger_monotone_claimed[OF serve_ledger_monotone u k]
  show "u \<in> set (usage_ledger (serve L cfg db rs))" .
  fix j assume j: "j \<in> set (drop (length (invoices db)) (invoices (serve L cfg db rs)))"
  from assms u k obtain i where "i \<in> set (invoices db)" "i_id i = k"
    by (fastforce simp: well_formed_def)
  with assms have "k < invoices_id_seq db" by (auto simp: well_formed_def)
  moreover from serve_invoices_extend[of db L cfg rs] j have "invoices_id_seq db \<le> i_id j"
    by (simp add: invoices_extend_def)
  ultimately show "Some (i_id j) \<noteq> invoice_id u" using k by simp
next
  fix start "end" :: int and cid u
  assume "u \<in> set (filter (qualifies start end cid) (usage_ledger db))"
  then show "invoice_id u = None" by (simp add: qualifies_def)
next
  fix start "end" :: int
  show "billing_query start end db =
         billing_query start end
           (db\<lparr>usage_ledger := filter (\<lambda>u. invoice_id u = None) (usage_ledger db)\<rparr>)"
    by (rule qualifying_unbilled)
qed

theorem no_double_billing_witness:
  "well_formed late_usage_store
   \<and> serve example_lib example_config late_usage_store [example_bill_request accepting_net] =
       rebilled_store
   \<and> ledger_monotone (usage_ledger late_usage_store) (usage_ledger rebilled_store)
   \<and> usage_C1\<lparr>invoice_id := Some 1\<rparr> \<in> set (usage_ledger rebilled_store)
   \<and> list_all (\<lambda>j. i_id j \<noteq> 1) (drop 1 (invoices rebilled_store))
   \<and> map invoice_id (usage_ledger rebilled_store) = [Some 1, Some 2]
   \<and> map amount_cents (invoices rebilled_store) = [1200, 800]"
proof -
  have mem: "usage_C1\<lparr>invoice_id := Some 1\<rparr> \<in> set (usage_ledger late_usage_store)"
    and ref: "invoice_id (usage_C1\<lparr>invoice_id := Some 1\<rparr>) = Some 1"
    and len: "length (invoices late_usage_store) = 1"
    by (simp_all add: late_usage_store_def billed_store_def)
  from no_double_billing[OF well_formed_late, of example_lib example_config
      "[example_bill_request accepting_net]"] mem ref len
  have "ledger_monotone (usage_ledger late_usage_store) (usage_ledger rebilled_store)"
    and "usage_C1\<lparr>invoice_id := Some 1\<rparr> \<in> set (usage_ledger rebilled_store)"
    and "list_all (\<lambda>j. i_id j \<noteq> 1) (drop 1 (invoices rebilled_store))"
    unfolding list_all_iff late_rerun by fastforce+
  moreover have "map invoice_id (usage_ledger rebilled_store) = [Some 1, Some 2]"
    and "map amount_cents (invoices rebilled_store) = [1200, 800]"
    by (simp_all add: rebilled_store_def invoice_C1_def)
  ultimately show ?thesis using well_formed_late late_rerun by (intro conjI)
qed

subsection \<open>C2: a failed transfer leaves no invoice and no claimed usage\<close>

text \<open>
  Claim C2. In a billing run from a well-formed store, let the transfer call of a customer
  of the billing set throw \<open>e\<close>. Then the iteration for that customer returns the store
  it was given and counts the customer as failed with \<open>e\<close>; after the run the customer
  has the invoices and the usage rows it had before, so the same row is in the billing set
  of a later run over the window; the summary lists the customer with \<open>e\<close> among its
  errors, and it accounts for every customer of the billing set; and every other customer
  whose transfer is accepted gets its invoice.
\<close>

theorem transfer_failure_rolls_back:
  assumes wf: "well_formed db"
    and run: "bill_week cfg net start end now None db (Some ''Bearer admin'') = (resp, db')"
    and mem: "(c, u) \<in> set (billing_query start end db)"
    and pos: "0 < Math_round (u * PRICE_PER_UNIT_CENTS)"
    and thr: "fst (dwollaPost
          (net \<lparr>source_href = dwolla_funding_href c,
                destination_href = DWOLLA_YOUR_FUNDING_HREF cfg,
                amount_value = Math_round (u * PRICE_PER_UNIT_CENTS),
                meta_crm_contact_id = c_crm_contact_id c,
                meta_period_start = start, meta_period_end = end\<rparr>) 3) = Throws e"
  shows
   "(\<forall>d r. bill_customer cfg net start end now (d, r) (c, u) =
        (d, r\<lparr>failed := failed r + 1, errors := errors r @ [(c_crm_contact_id c, e)]\<rparr>))
    \<and> filter (\<lambda>i. i_crm_contact_id i = c_crm_contact_id c) (invoices db') =
        filter (\<lambda>i. i_crm_contact_id i = c_crm_contact_id c) (invoices db)
    \<and> filter (\<lambda>x. u_crm_contact_id x = c_crm_contact_id c) (usage_ledger db') =
        filter (\<lambda>x. u_crm_contact_id x = c_crm_contact_id c) (usage_ledger db)
    \<and> (c, u) \<in> set (billing_query start end db')
    \<and> (\<exists>results. resp = BillingSummary start end results
          \<and> (c_crm_contact_id c, e) \<in> set (errors results)
          \<and> 0 < failed results \<and> failed results = length (errors results)
          \<and> successful results + failed results + skipped results =
              length (billing_query start end db))
    \<and> (\<forall>(c2, u2)\<in>set (billing_query start end db).
          0 < Math_round (u2 * PRICE_PER_UNIT_CENTS)
          \<and> Math_round (u2 * PRICE_PER_UNIT_CENTS) \<le> 2147483647
          \<and> (\<exists>loc. fst (dwollaPost
                (net \<lparr>source_href = dwolla_funding_href c2,
                      destination_href = DWOLLA_YOUR_FUNDING_HREF cfg,
                      amount_value = Math_round (u2 * PRICE_PER_UNIT_CENTS),
                      meta_crm_contact_id = c_crm_contact_id c2,
                      meta_period_start = start, meta_period_end = end\<rparr>) 3) = Returned loc)
          \<longrightarrow> length (filter (\<lambda>i. i_crm_contact_id i = c_crm_contact_id c2)
                        (drop (length (invoices db)) (invoices db'))) = 1)"
proof -
  let ?rows = "billing_query start end db"
  let ?cid = "c_crm_contact_id c"
  from run obtain results where resp: "resp = BillingSummary start end results"
    and loop: "foldl (bill_customer cfg net start end now)
       (db, \<lparr>total_customers = length ?rows, successful = 0, failed = 0, skipped = 0,
             total_amount_cents = 0, total_amount_dollars = 0, errors = []\<rparr>)
       ?rows = (db', results)"
    by (rule bill_week_run)
  from wf have "distinct (map c_crm_contact_id (customers db))"
    by (simp add: well_formed_def)
  then have dist: "distinct (map (\<lambda>x. c_crm_contact_id (fst x)) ?rows)"
    by (rule billing_query_distinct)
  have step: "\<forall>d r. bill_customer cfg net start end now (d, r) (c, u) =
        (d, r\<lparr>failed := failed r + 1, errors := errors r @ [(c_crm_contact_id c, e)]\<rparr>)"
  proof (intro allI)
    fix d r
    show "bill_customer cfg net start end now (d, r) (c, u) =
        (d, r\<lparr>failed := failed r + 1, errors := errors r @ [(c_crm_contact_id c, e)]\<rparr>)"
      by (rule bill_customer_failed) (rule pos, rule thr)
  qed
  from thr have no: "\<not> (0 < Math_round (u * PRICE_PER_UNIT_CENTS)
           \<and> Math_round (u * PRICE_PER_UNIT_CENTS) \<le> 2147483647
           \<and> (\<exists>loc. fst (dwollaPost
          (net \<lparr>source_href = dwolla_funding_href c,
                destination_href = DWOLLA_YOUR_FUNDING_HREF cfg,
                amount_value = Math_round (u * PRICE_PER_UNIT_CENTS),
                meta_crm_contact_id = c_crm_contact_id c,
                meta_period_start = start, meta_period_end = end\<rparr>) 3) = Returned loc))"
    by simp
  note same = bill_loop_unbilled[OF loop dist mem no]
  have again: "(c, u) \<in> set (billing_query start end db')"
  proof -
    have "filter (qualifies start end ?cid) (usage_ledger db') =
          filter (qualifies start end ?cid) (usage_ledger db)"
      using same(1) qualifying_of_customer by metis
    with mem bill_loop_shape(1)[OF loop] show ?thesis
      by (simp add: billing_query_mem)
  qed
  have err: "(?cid, e) \<in> set (errors results)"
    using loop dist mem pos thr by (rule bill_loop_failed_error)
  from bill_loop_failed_count[OF loop] have fc: "failed results = length (errors results)"
    by simp
  with err have fpos: "0 < failed results"
    by (cases "errors results") auto
  from bill_loop_counts(2)[OF loop]
  have sum: "successful results + failed results + skipped results = length ?rows"
    by simp
  have others: "\<forall>(c2, u2)\<in>set ?rows.
          0 < Math_round (u2 * PRICE_PER_UNIT_CENTS)
          \<and> Math_round (u2 * PRICE_PER_UNIT_CENTS) \<le> 2147483647
          \<and> (\<exists>loc. fst (dwollaPost
                (net \<lparr>source_href = dwolla_funding_href c2,
                      destination_href = DWOLLA_YOUR_FUNDING_HREF cfg,
                      amount_value = Math_round (u2 * PRICE_PER_UNIT_CENTS),
                      meta_crm_contact_id = c_crm_contact_id c2,
                      meta_period_start = start, meta_period_end = end\<rparr>) 3) = Returned loc)
          \<longrightarrow> length (filter (\<lambda>i. i_crm_contact_id i = c_crm_contact_id c2)
                        (drop (length (invoices db)) (invoices db'))) = 1"
  proof (intro ballI, clarify)
    fix c2 u2 loc
    assume m2: "(c2, u2) \<in> set ?rows" and p2: "0 < Math_round (u2 * PRICE_PER_UNIT_CENTS)"
      and r2: "Math_round (u2 * PRICE_PER_UNIT_CENTS) \<le> 2147483647"
      and l2: "fst (dwollaPost
                (net \<lparr>source_href = dwolla_funding_href c2,
                      destination_href = DWOLLA_YOUR_FUNDING_HREF cfg,
                      amount_value = Math_round (u2 * PRICE_PER_UNIT_CENTS),
                      meta_crm_contact_id = c_crm_contact_id c2,
                      meta_period_start = start, meta_period_end = end\<rparr>) 3) = Returned loc"
    from bill_loop_shape(6)[OF loop] obtain news where news: "invoices db' = invoices db @ news"
      by blast
    from bill_loop_billed[OF loop dist m2 p2 r2 l2] obtain k where
      "filter (\<lambda>i. i_crm_contact_id i = c_crm_contact_id c2) (invoices db') =
        filter (\<lambda>i. i_crm_contact_id i = c_crm_contact_id c2) (invoices db) @
          [\<lparr>i_id = k, i_crm_contact_id = c_crm_contact_id c2,
            period_start = start, period_end = end,
            amount_cents = Math_round (u2 * PRICE_PER_UNIT_CENTS), dwolla_transfer_href = loc,
            i_status = ''initiated'', created_at = now, updated_at = now\<rparr>]"
      by blast
    with news show "length (filter (\<lambda>i. i_crm_contact_id i = c_crm_contact_id c2)
                        (drop (length (invoices db)) (invoices db'))) = 1"
      by simp
  qed
  from step same again resp err fpos fc sum others show ?thesis by blast
qed

theorem transfer_failure_rolls_back_witness:
  "well_formed two_customer_store
   \<and> bill_week example_config selective_net 1736700000 1737304800 1737400000 None
         two_customer_store (Some ''Bearer admin'') =
       (BillingSummary 1736700000 1737304800
          \<lparr>total_customers = 2, successful = 1, failed = 1, skipped = 0,
            total_amount_cents = 1000, total_amount_dollars = 10,
            errors = [(''C1'', DwollaApiError 400 ''unverified funding source'')]\<rparr>,
        half_billed_store)
   \<and> (customer_C1, 3) \<in> set (billing_query 1736700000 1737304800 two_customer_store)
   \<and> 0 < Math_round (3 * PRICE_PER_UNIT_CENTS)
   \<and> filter (\<lambda>i. i_crm_contact_id i = ''C1'') (invoices half_billed_store) =
       filter (\<lambda>i. i_crm_contact_id i = ''C1'') (invoices two_customer_store)
   \<and> filter (\<lambda>x. u_crm_contact_id x = ''C1'') (usage_ledger half_billed_store) =
       filter (\<lambda>x. u_crm_contact_id x = ''C1'') (usage_ledger two_customer_store)
   \<and> (customer_C1, 3) \<in> set (billing_query 1736700000 1737304800 half_billed_store)
   \<and> length (filter (\<lambda>i. i_crm_contact_id i = ''C2'')
               (drop (length (invoices two_customer_store)) (invoices half_billed_store))) = 1"
proof -
  have mem: "(customer_C1, 3) \<in> set (billing_query 1736700000 1737304800 two_customer_store)"
    and mem2: "(customer_C2, 5 / 2) \<in> set (billing_query 1736700000 1737304800 two_customer_store)"
    by (simp_all add: selective_rows)
  have pos: "0 < Math_round (3 * PRICE_PER_UNIT_CENTS)"
    by (simp add: Math_round_examples)
  note t = transfer_failure_rolls_back[OF well_formed_examples(2) selective_run mem pos
      selective_throws]
  have ret: "fst (dwollaPost
          (selective_net \<lparr>source_href = dwolla_funding_href customer_C2,
                destination_href = DWOLLA_YOUR_FUNDING_HREF example_config,
                amount_value = Math_round (5 / 2 * PRICE_PER_UNIT_CENTS),
                meta_crm_contact_id = c_crm_contact_id customer_C2,
                meta_period_start = 1736700000, meta_period_end = 1737304800\<rparr>) 3) =
     Returned (Some ''t2'')"
    by (simp add: billing_defs example_defs)
  from t mem2 ret have other: "length (filter (\<lambda>i. i_crm_contact_id i = c_crm_contact_id customer_C2)
               (drop (length (invoices two_customer_store)) (invoices half_billed_store))) = 1"
    by (fastforce simp: Math_round_examples)
  from t have same: "filter (\<lambda>i. i_crm_contact_id i = c_crm_contact_id customer_C1) (invoices half_billed_store) =
       filter (\<lambda>i. i_crm_contact_id i = c_crm_contact_id customer_C1) (invoices two_customer_store)"
    "filter (\<lambda>x. u_crm_contact_id x = c_crm_contact_id customer_C1) (usage_ledger half_billed_store) =
       filter (\<lambda>x. u_crm_contact_id x = c_crm_contact_id customer_C1) (usage_ledger two_customer_store)"
    "(customer_C1, 3) \<in> set (billing_query 1736700000 1737304800 half_billed_store)"
    by blast+
  have cid: "c_crm_contact_id customer_C1 = ''C1''" "c_crm_contact_id customer_C2 = ''C2''"
    by (simp_all add: customer_C1_def customer_C2_def)
  from well_formed_examples(2) selective_run mem pos same other show ?thesis
    unfolding cid by (intro conjI)
qed

subsection \<open>C3: one usage row per idempotency key\<close>

lemma claim_mono_fields:
  assumes "claim_mono u u'"
  shows "idempotency_key u' = idempotency_key u" "u_crm_contact_id u' = u_crm_contact_id u"
    "units u' = units u" "occurred_at u' = occurred_at u" "u_id u' = u_id u"
  using assms by (cases u; cases u'; auto simp: claim_mono_def)+

lemma list_all2_filter:
  assumes "list_all2 R xs ys" and "\<And>x y. R x y \<Longrightarrow> P x = Q y"
  shows "list_all2 R (filter P xs) (filter Q ys)"
  using assms(1)
proof (induction rule: list_all2_induct)
  case Nil
  show ?case by simp
next
  case (Cons x xs y ys)
  with assms(2)[of x y] show ?case by simp
qed

lemma handle_new_keys:
  "\<forall>x\<in>set (drop (length (usage_ledger db)) (usage_ledger (snd (handle L cfg db r)))).
      idempotency_key x \<notin> set (map idempotency_key (usage_ledger db))"
proof (cases r)
  case (UsageRequest fault req)
  obtain resp db' where h: "createGhlUsageHandler L cfg fault db req = (resp, db')"
    by (cases "createGhlUsageHandler L cfg fault db req")
  then have "\<forall>x\<in>set (drop (length (usage_ledger db)) (usage_ledger db')).
      idempotency_key x \<notin> set (map idempotency_key (usage_ledger db))"
    by (cases rule: ghl_cases[OF h])
       (simp_all add: insert_usage_ledger upsert_customer_frame)
  with UsageRequest h show ?thesis by simp
next
  case (BillRequest net start "end" now fault authorization)
  obtain resp db' where h: "bill_week cfg net start end now fault db authorization = (resp, db')"
    by (cases "bill_week cfg net start end now fault db authorization")
  from h have "length (usage_ledger db') = length (usage_ledger db)"
  proof (cases rule: bill_week_cases)
    case not_run
    then show ?thesis by simp
  next
    case (run results')
    from bill_loop_shape(4)[OF run(4)] show ?thesis by (rule map_eq_imp_length_eq)
  qed
  with BillRequest h show ?thesis by simp
next
  case (DwollaRequest now fault req)
  obtain resp db' where h: "createDwollaWebhookHandler L cfg now fault db req = (resp, db')"
    by (cases "createDwollaWebhookHandler L cfg now fault db req")
  then have "usage_ledger db' = usage_ledger db"
    by (cases rule: dwolla_cases[OF h]) (simp_all add: update_invoice_status_frame)
  with DwollaRequest h show ?thesis by simp
qed

lemma key_row_step:
  assumes mono: "ledger_monotone old new"
    and fresh: "\<forall>x\<in>set (drop (length old) new). idempotency_key x \<notin> set (map idempotency_key old)"
    and row: "filter (\<lambda>x. idempotency_key x = key) old = [u]"
  shows "\<exists>u'. filter (\<lambda>x. idempotency_key x = key) new = [u'] \<and> claim_mono u u'"
proof -
  let ?P = "\<lambda>x. idempotency_key x = key"
  from mono have all: "list_all2 claim_mono old (take (length old) new)"
    by (simp add: ledger_monotone_def)
  have "list_all2 claim_mono (filter ?P old) (filter ?P (take (length old) new))"
    using all by (rule list_all2_filter) (simp add: claim_mono_fields)
  with row obtain u' where u': "filter ?P (take (length old) new) = [u']" "claim_mono u u'"
    by (auto simp: list_all2_Cons1)
  from row have "u \<in> set (filter ?P old)" by simp
  then have "key \<in> set (map idempotency_key old)" by auto
  with fresh have "filter ?P (drop (length old) new) = []"
    by (auto simp: filter_empty_conv)
  moreover have "filter ?P new = filter ?P (take (length old) new) @ filter ?P (drop (length old) new)"
    by (metis append_take_drop_id filter_append)
  ultimately show ?thesis using u' by simp
qed

lemma handle_key_row:
  assumes "filter (\<lambda>x. idempotency_key x = key) (usage_ledger db) = [u]"
  shows "\<exists>u'. filter (\<lambda>x. idempotency_key x = key) (usage_ledger (snd (handle L cfg db r))) = [u']
            \<and> claim_mono u u'"
  using handle_ledger_monotone handle_new_keys assms by (rule key_row_step)

lemma serve_key_row:
  assumes "filter (\<lambda>x. idempotency_key x = key) (usage_ledger db) = [u]"
  shows "\<exists>u'. filter (\<lambda>x. idempotency_key x = key) (usage_ledger (serve L cfg db rs)) = [u']
            \<and> claim_mono u u'"
  using assms
proof (induction rs arbitrary: db u)
  case Nil
  then show ?case by (simp add: serve_def claim_mono_refl)
next
  case (Cons r rs)
  from handle_key_row[OF Cons.prems, of L cfg r] obtain u1 where
    u1: "filter (\<lambda>x. idempotency_key x = key) (usage_ledger (snd (handle L cfg db r))) = [u1]"
      "claim_mono u u1"
    by blast
  from Cons.IH[OF u1(1)] obtain u' where
    "filter (\<lambda>x. idempotency_key x = key)
       (usage_ledger (serve L cfg (snd (handle L cfg db r)) rs)) = [u']" "claim_mono u1 u'"
    by blast
  with u1(2) show ?case
    by (auto simp: serve_def intro: claim_mono_trans)
qed


lemma ghl_success:
  assumes "g_authorization req =
         Some (''Bearer '' @ (case GHL_BEARER cfg of None \<Rightarrow> ''undefined'' | Some s \<Rightarrow> s))"
    and "validateUsageWebhook L (g_body req) = []"
    and "Option.bind (pg_text L (b_occurred_at (g_body req))) (pg_timestamptz L) \<noteq> None"
  shows "\<exists>recorded msg. fst (createGhlUsageHandler L cfg None db req) = UsageResult recorded msg"
proof -
  from assms(2) obtain cid key n where body:
    "b_crm_contact_id (g_body req) = JString cid"
    "b_idempotency_key (g_body req) = JString key"
    "Number L (b_units (g_body req)) = Finite n"
    unfolding validateUsageWebhook_Nil by blast
  from assms(3) obtain t where
    "Option.bind (pg_text L (b_occurred_at (g_body req))) (pg_timestamptz L) = Some t"
    by auto
  with assms(1,2) body show ?thesis
    by (simp add: createGhlUsageHandler_def usage_transaction_def Let_def split: prod.splits)
qed

text \<open>
  Claim C3. Let a first submission be recorded (answered 200 with \<^verbatim>\<open>recorded: true\<close>), let
  any requests follow, and let a second submission carry the same \<^verbatim>\<open>idempotency_key\<close>,
  whatever its other fields. Then after the second submission the ledger holds exactly one
  row with that key, with the id the first submission was given and its customer, units
  and timestamp; the second submission leaves the ledger as it found it; it is answered
  either 200 with \<^verbatim>\<open>recorded: false\<close> and the message \<^verbatim>\<open>Duplicate request ignored\<close>, or 401,
  400 or 500 when it is rejected for another reason; and it is answered 200 with
  \<^verbatim>\<open>recorded: false\<close> whenever it is authenticated and valid and the store reads its
  timestamp and does not fail.
\<close>

theorem idempotent_ingestion:
  assumes first: "createGhlUsageHandler L cfg f1 db r1 = (UsageResult True m1, db1)"
    and key: "b_idempotency_key (g_body r2) = b_idempotency_key (g_body r1)"
    and second: "createGhlUsageHandler L cfg f2 (serve L cfg db1 rs) r2 = (resp2, db2)"
  shows "\<exists>key cid n t u.
      b_idempotency_key (g_body r1) = JString key \<and> b_crm_contact_id (g_body r1) = JString cid
    \<and> Number L (b_units (g_body r1)) = Finite n
    \<and> Option.bind (pg_text L (b_occurred_at (g_body r1))) (pg_timestamptz L) = Some t
    \<and> filter (\<lambda>x. idempotency_key x = key) (usage_ledger db2) = [u]
    \<and> u_id u = usage_ledger_id_seq db \<and> u_crm_contact_id u = cid \<and> units u = n
    \<and> occurred_at u = t
    \<and> usage_ledger db2 = usage_ledger (serve L cfg db1 rs)
    \<and> (resp2 = UsageResult False ''Duplicate request ignored'' \<or> resp2 = SendStatus 401
         \<or> resp2 = InvalidPayload (validateUsageWebhook L (g_body r2))
         \<or> resp2 = InternalServerError)
    \<and> (g_authorization r2 =
           Some (''Bearer '' @ (case GHL_BEARER cfg of None \<Rightarrow> ''undefined'' | Some s \<Rightarrow> s))
         \<and> validateUsageWebhook L (g_body r2) = [] \<and> f2 = None
         \<and> Option.bind (pg_text L (b_occurred_at (g_body r2))) (pg_timestamptz L) \<noteq> None
         \<longrightarrow> resp2 = UsageResult False ''Duplicate request ignored'')"
proof -
  let ?mid = "serve L cfg db1 rs"
  from first obtain cid key n t where one:
      "b_crm_contact_id (g_body r1) = JString cid"
      "b_idempotency_key (g_body r1) = JString key"
      "Number L (b_units (g_body r1)) = Finite n"
      "Option.bind (pg_text L (b_occurred_at (g_body r1))) (pg_timestamptz L) = Some t"
      "db1 = snd (insert_usage key cid n t
                (upsert_customer cid (pg_text L (b_name (g_body r1)))
                   (pg_text L (b_email (g_body r1))) db))"
      "key \<notin> set (map idempotency_key (usage_ledger db))"
    by (cases rule: ghl_cases[OF first]) auto
  let ?new = "\<lparr>u_id = usage_ledger_id_seq db, idempotency_key = key,
               u_crm_contact_id = cid, units = n, occurred_at = t, invoice_id = None\<rparr>"
  from one(5,6) have l1: "usage_ledger db1 = usage_ledger db @ [?new]"
    by (simp add: insert_usage_ledger upsert_customer_frame)
  from one(6) have "filter (\<lambda>x. idempotency_key x = key) (usage_ledger db) = []"
    by (auto simp: filter_empty_conv)
  with l1 have "filter (\<lambda>x. idempotency_key x = key) (usage_ledger db1) = [?new]"
    by simp
  from serve_key_row[OF this, of L cfg rs] obtain u where
    u: "filter (\<lambda>x. idempotency_key x = key) (usage_ledger ?mid) = [u]" "claim_mono ?new u"
    by blast
  from claim_mono_fields[OF u(2)]
  have fields: "u_id u = usage_ledger_id_seq db" "u_crm_contact_id u = cid" "units u = n"
    "occurred_at u = t"
    by simp_all
  from u(1) have "u \<in> set (filter (\<lambda>x. idempotency_key x = key) (usage_ledger ?mid))"
    by simp
  then have present: "key \<in> set (map idempotency_key (usage_ledger ?mid))"
    by auto
  from key one(2) have k2: "b_idempotency_key (g_body r2) = JString key" by simp
  have two: "usage_ledger db2 = usage_ledger ?mid
    \<and> (resp2 = UsageResult False ''Duplicate request ignored'' \<or> resp2 = SendStatus 401
         \<or> resp2 = InvalidPayload (validateUsageWebhook L (g_body r2))
         \<or> resp2 = InternalServerError)"
    using k2 present
    by (cases rule: ghl_cases[OF second])
       (auto simp: insert_usage_ledger upsert_customer_frame)
  have three: "resp2 = UsageResult False ''Duplicate request ignored''"
    if h: "g_authorization r2 =
           Some (''Bearer '' @ (case GHL_BEARER cfg of None \<Rightarrow> ''undefined'' | Some s \<Rightarrow> s))"
      "validateUsageWebhook L (g_body r2) = []" "f2 = None"
      "Option.bind (pg_text L (b_occurred_at (g_body r2))) (pg_timestamptz L) \<noteq> None"
  proof -
    from ghl_success[OF h(1,2,4), of ?mid] second h(3) obtain recorded msg where
      "resp2 = UsageResult recorded msg"
      by auto
    with two show ?thesis by auto
  qed
  from one(1-4) u(1) fields two three show ?thesis
    by (intro exI[of _ key] exI[of _ cid] exI[of _ n] exI[of _ t] exI[of _ u]) simp
qed


theorem idempotent_ingestion_witness:
  "createGhlUsageHandler example_lib example_config None empty_database example_usage_request =
     (UsageResult True ''Usage recorded'', recorded_store)
   \<and> createGhlUsageHandler example_lib example_config None
        (serve example_lib example_config recorded_store []) retry_usage_request =
     (UsageResult False ''Duplicate request ignored'', recorded_store)
   \<and> b_units (g_body retry_usage_request) = JNumber (Finite 7)
   \<and> map units (filter (\<lambda>x. idempotency_key x = ''C1-1'') (usage_ledger recorded_store)) = [3]"
proof -
  have first: "createGhlUsageHandler example_lib example_config None empty_database
       example_usage_request = (UsageResult True ''Usage recorded'', recorded_store)"
    by (simp add: createGhlUsageHandler_def validateUsageWebhook_def usage_transaction_def
        upsert_customer_def insert_usage_def example_lib_def example_config_def
        example_usage_request_def example_body_def empty_database_def recorded_store_def
        usage_C1_def Let_def)
  have second: "createGhlUsageHandler example_lib example_config None
        (serve example_lib example_config recorded_store []) retry_usage_request =
     (UsageResult False ''Duplicate request ignored'', recorded_store)"
    by (simp add: createGhlUsageHandler_def validateUsageWebhook_def usage_transaction_def
        upsert_customer_def insert_usage_def example_lib_def example_config_def
        example_usage_request_def retry_usage_request_def example_body_def recorded_store_def
        usage_C1_def serve_def Let_def)
  have key: "b_idempotency_key (g_body retry_usage_request) =
             b_idempotency_key (g_body example_usage_request)"
    by (simp add: retry_usage_request_def example_usage_request_def example_body_def)
  have u7: "b_units (g_body retry_usage_request) = JNumber (Finite 7)"
    by (simp add: retry_usage_request_def)
  from idempotent_ingestion[OF first key second] obtain key n u where
    "b_idempotency_key (g_body example_usage_request) = JString key"
    "Number example_lib (b_units (g_body example_usage_request)) = Finite n"
    "filter (\<lambda>x. idempotency_key x = key) (usage_ledger recorded_store) = [u]" "units u = n"
    by blast
  then have "map units (filter (\<lambda>x. idempotency_key x = ''C1-1'') (usage_ledger recorded_store)) = [3]"
    by (simp add: example_usage_request_def example_body_def)
  with first second u7 show ?thesis by (intro conjI)
qed

subsection \<open>C4: the status of an invoice\<close>

lemma truthy_pg_text: "truthy v \<Longrightarrow> \<exists>h. pg_text L v = Some h"
  by (cases v) auto

lemma handle_keeps_invoices:
  assumes "\<forall>now fault req. r \<noteq> DwollaRequest now fault req"
  shows "take (length (invoices db)) (invoices (snd (handle L cfg db r))) = invoices db"
proof (cases r)
  case (UsageRequest fault req)
  obtain resp db' where h: "createGhlUsageHandler L cfg fault db req = (resp, db')"
    by (cases "createGhlUsageHandler L cfg fault db req")
  then have "invoices db' = invoices db"
    by (cases rule: ghl_cases[OF h]) (simp_all add: insert_usage_frame upsert_customer_frame)
  with UsageRequest h show ?thesis by simp
next
  case (BillRequest net start "end" now fault authorization)
  obtain resp db' where h: "bill_week cfg net start end now fault db authorization = (resp, db')"
    by (cases "bill_week cfg net start end now fault db authorization")
  from h have "take (length (invoices db)) (invoices db') = invoices db"
  proof (cases rule: bill_week_cases)
    case not_run
    then show ?thesis by simp
  next
    case (run results')
    from bill_loop_shape(6)[OF run(4)] show ?thesis by auto
  qed
  with BillRequest h show ?thesis by simp
next
  case (DwollaRequest now fault req)
  with assms show ?thesis by blast
qed

text \<open>
  The claim as stated fails: after a billing run, a \<^verbatim>\<open>transfer_failed\<close> notification sets
  the invoice to \<^verbatim>\<open>failed\<close>, and a later \<^verbatim>\<open>transfer_completed\<close> notification for the same
  transfer sets it to \<^verbatim>\<open>completed\<close>.
\<close>

theorem terminal_status_overwritten:
  "map i_status (invoices (serve example_lib example_config unbilled_store
      [example_bill_request accepting_net])) = [''initiated'']
   \<and> map i_status (invoices (serve example_lib example_config unbilled_store
      [example_bill_request accepting_net,
       DwollaRequest 1737450000 None failed_notification])) = [''failed'']
   \<and> map i_status (invoices (serve example_lib example_config unbilled_store
      [example_bill_request accepting_net,
       DwollaRequest 1737450000 None failed_notification,
       DwollaRequest 1737500000 None completed_notification])) = [''completed'']"
proof -
  have bill: "serve example_lib example_config unbilled_store [example_bill_request accepting_net]
        = billed_store"
    by (simp add: serve_def example_bill_request_def accepting_run)
  have fail: "createDwollaWebhookHandler example_lib example_config 1737450000 None billed_store
        failed_notification = (SendStatus 200, failed_store)"
    by (simp add: reconciler_defs)
  have comp: "createDwollaWebhookHandler example_lib example_config 1737500000 None failed_store
        completed_notification = (SendStatus 200, completed_store)"
    by (simp add: reconciler_defs)
  have two: "serve example_lib example_config unbilled_store
      [example_bill_request accepting_net,
       DwollaRequest 1737450000 None failed_notification] = failed_store"
    using bill fail by (simp add: serve_def)
  have three: "serve example_lib example_config unbilled_store
      [example_bill_request accepting_net,
       DwollaRequest 1737450000 None failed_notification,
       DwollaRequest 1737500000 None completed_notification] = completed_store"
    using bill fail comp by (simp add: serve_def)
  show ?thesis
    unfolding bill two three
    by (simp add: billed_store_def failed_store_def completed_store_def invoice_C1_def)
qed

text \<open>
  Claim C4, amended. A notification changes an invoice only by setting its status and
  \<^verbatim>\<open>updated_at\<close>: to \<^verbatim>\<open>completed\<close> on \<^verbatim>\<open>transfer_completed\<close> and to \<^verbatim>\<open>failed\<close> on
  \<^verbatim>\<open>transfer_failed\<close>, for an invoice of the transfer the notification names whose status
  differs from that target; and an authentic notification with one of these topics, met
  by no store error, does so for every such invoice. The guard compares with the target
  only, so a terminal status is not protected. A notification that was processed without
  a store error changes nothing when it is delivered again, and gets the same answer. A
  request other than a notification leaves the invoices the store had as they are; under
  any request they stay in place and change in their status and \<^verbatim>\<open>updated_at\<close> only, the
  status becoming \<^verbatim>\<open>completed\<close> or \<^verbatim>\<open>failed\<close>, and every invoice that is added has status
  \<^verbatim>\<open>initiated\<close>.
\<close>

theorem invoice_status_by_notification:
  "(createDwollaWebhookHandler L cfg now fault db req = (resp, db') \<longrightarrow>
      list_all2
        (\<lambda>i i'. i' = i \<or>
           (\<exists>href topic target.
              json_href_topic L (d_body req) = Some (href, topic)
              \<and> dwolla_transfer_href i = pg_text L href
              \<and> (topic = JString ''transfer_completed'' \<and> target = ''completed''
                   \<or> topic = JString ''transfer_failed'' \<and> target = ''failed'')
              \<and> i_status i \<noteq> target
              \<and> i' = i\<lparr>i_status := target, updated_at := now\<rparr>))
        (invoices db) (invoices db')
      \<and> (fault = None \<longrightarrow>
            createDwollaWebhookHandler L cfg now2 fault2 db' req = (resp, db')))
   \<and> (verifyDwollaWebhookSignature L req (DWOLLA_WEBHOOK_SECRET cfg) = Inr True
        \<and> json_href_topic L (d_body req) = Some (href, topic) \<and> truthy href
        \<and> (topic = JString ''transfer_completed'' \<and> target = ''completed''
             \<or> topic = JString ''transfer_failed'' \<and> target = ''failed'')
       \<longrightarrow> invoices (snd (createDwollaWebhookHandler L cfg now None db req)) =
             map (\<lambda>i. if dwolla_transfer_href i = pg_text L href \<and> i_status i \<noteq> target
                       then i\<lparr>i_status := target, updated_at := now\<rparr> else i)
                 (invoices db))
   \<and> ((\<forall>now fault req. r \<noteq> DwollaRequest now fault req) \<longrightarrow>
         take (length (invoices db)) (invoices (snd (handle L cfg db r))) = invoices db)
   \<and> length (invoices db) \<le> length (invoices (snd (handle L cfg db r)))
   \<and> list_all2 status_evolves (invoices db)
        (take (length (invoices db)) (invoices (snd (handle L cfg db r))))
   \<and> (\<forall>i\<in>set (drop (length (invoices db)) (invoices (snd (handle L cfg db r)))).
         i_status i = ''initiated'')"
proof (intro conjI impI)
  assume h: "createDwollaWebhookHandler L cfg now fault db req = (resp, db')"
  then show "list_all2
        (\<lambda>i i'. i' = i \<or>
           (\<exists>href topic target.
              json_href_topic L (d_body req) = Some (href, topic)
              \<and> dwolla_transfer_href i = pg_text L href
              \<and> (topic = JString ''transfer_completed'' \<and> target = ''completed''
                   \<or> topic = JString ''transfer_failed'' \<and> target = ''failed'')
              \<and> i_status i \<noteq> target
              \<and> i' = i\<lparr>i_status := target, updated_at := now\<rparr>))
        (invoices db) (invoices db')"
  proof (cases rule: dwolla_cases)
    case ignored
    then show ?thesis by (simp add: list_all2_same)
  next
    case (updated target h href topic)
    then show ?thesis
      by (auto simp: update_invoice_status_def list_all2_map2 list_all2_same)
  qed
  assume nofault: "fault = None"
  have r2: "fst (createDwollaWebhookHandler L cfg now2 fault2 db' req) = resp"
    using h dwolla_response[of L cfg now fault db req] dwolla_response[of L cfg now2 fault2 db' req]
    by simp
  from h nofault have "snd (createDwollaWebhookHandler L cfg now2 fault2 db' req) = db'"
    by (auto simp: createDwollaWebhookHandler_def update_invoice_status_idem
             split: sum.splits bool.splits option.splits prod.splits if_splits)
  with r2 show "createDwollaWebhookHandler L cfg now2 fault2 db' req = (resp, db')"
    by (metis prod.collapse)
next
  assume a: "verifyDwollaWebhookSignature L req (DWOLLA_WEBHOOK_SECRET cfg) = Inr True
        \<and> json_href_topic L (d_body req) = Some (href, topic) \<and> truthy href
        \<and> (topic = JString ''transfer_completed'' \<and> target = ''completed''
             \<or> topic = JString ''transfer_failed'' \<and> target = ''failed'')"
  then obtain h where h: "pg_text L href = Some h"
    using truthy_pg_text by blast
  from a have v: "verifyDwollaWebhookSignature L req (DWOLLA_WEBHOOK_SECRET cfg) = Inr True"
    and j: "json_href_topic L (d_body req) = Some (href, topic)" and th: "truthy href"
    by simp_all
  from a consider "topic = JString ''transfer_completed''" "target = ''completed''"
    | "topic = JString ''transfer_failed''" "target = ''failed''"
    by blast
  then show "invoices (snd (createDwollaWebhookHandler L cfg now None db req)) =
             map (\<lambda>i. if dwolla_transfer_href i = pg_text L href \<and> i_status i \<noteq> target
                       then i\<lparr>i_status := target, updated_at := now\<rparr> else i)
                 (invoices db)"
  proof cases
    case 1
    with v j th h show ?thesis
      by (simp add: createDwollaWebhookHandler_def update_invoice_status_def)
  next
    case 2
    with v j th h show ?thesis
      by (simp add: createDwollaWebhookHandler_def update_invoice_status_def)
  qed
next
  assume "\<forall>now fault req. r \<noteq> DwollaRequest now fault req"
  then show "take (length (invoices db)) (invoices (snd (handle L cfg db r))) = invoices db"
    by (rule handle_keeps_invoices)
next
  from handle_invoices_extend[of db L cfg r]
  show "length (invoices db) \<le> length (invoices (snd (handle L cfg db r)))"
    and "list_all2 status_evolves (invoices db)
        (take (length (invoices db)) (invoices (snd (handle L cfg db r))))"
    by (simp_all add: invoices_extend_def)
next
  show "\<forall>i\<in>set (drop (length (invoices db)) (invoices (snd (handle L cfg db r)))).
         i_status i = ''initiated''"
    by (rule handle_new_initiated)
qed

theorem invoice_status_by_notification_witness:
  "createDwollaWebhookHandler example_lib example_config 1737500000 None billed_store
      completed_notification = (SendStatus 200, completed_store)
   \<and> createDwollaWebhookHandler example_lib example_config 1737600000 None completed_store
      completed_notification = (SendStatus 200, completed_store)
   \<and> list_all2 status_evolves (invoices billed_store)
        (take (length (invoices billed_store))
           (invoices (snd (handle example_lib example_config billed_store
              (DwollaRequest 1737500000 None completed_notification)))))"
proof -
  have first: "createDwollaWebhookHandler example_lib example_config 1737500000 None billed_store
      completed_notification = (SendStatus 200, completed_store)"
    by (simp add: reconciler_defs)
  note t = invoice_status_by_notification[where L = example_lib and cfg = example_config
      and now = 1737500000 and fault = None and db = billed_store
      and req = completed_notification and resp = "SendStatus 200" and db' = completed_store
      and ?now2.0 = 1737600000 and ?fault2.0 = None
      and href = "JString ''t1''" and topic = "JString ''transfer_completed''"
      and target = "''completed''"
      and r = "DwollaRequest 1737500000 None completed_notification"]
  from t[THEN conjunct1, rule_format, OF first]
  have "createDwollaWebhookHandler example_lib example_config 1737600000 None completed_store
      completed_notification = (SendStatus 200, completed_store)"
    by simp
  moreover from t[THEN conjunct2, THEN conjunct2, THEN conjunct2, THEN conjunct2, THEN conjunct1]
  have "list_all2 status_evolves (invoices billed_store)
        (take (length (invoices billed_store))
           (invoices (snd (handle example_lib example_config billed_store
              (DwollaRequest 1737500000 None completed_notification)))))" .
  ultimately show ?thesis using first by (intro conjI)
qed

subsection \<open>C5: the amount of an invoice, and one invoice per customer\<close>



subsection \<open>C6: how a transfer request fails\<close>

text \<open>
  Claim C6 says that a client error other than 401 fails at once, with no retry, and that
  a 401 is retried once. The loop does otherwise. The \<^verbatim>\<open>throw error\<close> for a 4xx status is
  inside the \<^verbatim>\<open>try\<close> block, so the loop's own \<^verbatim>\<open>catch\<close> receives it and, before the last
  attempt, drops it: a transfer answered 400 is posted again, and here the second post
  creates the transfer. A 401 is retried as long as attempts remain, twice with the default
  of three attempts.
\<close>

theorem client_error_is_retried:
  "dwollaPost client_error_then_created 3 =
     (Returned (Some ''t1''), [PostRequest 1, PostRequest 2])
   \<and> dwollaPost unauthorized_twice_then_created 3 =
     (Returned (Some ''t1''),
      [PostRequest 1, ClearTokenCache, Sleep 1000,
       PostRequest 2, ClearTokenCache, Sleep 1000, PostRequest 3])"
  by (simp add: dwollaPost_def dwollaPost_from.simps attempt_step_def catch_error_def
      client_error_then_created_def unauthorized_twice_then_created_def)

subsection \<open>C7: the signature of a notification\<close>

text \<open>
  The claim as stated fails: a notification with a forged signature, which is rejected
  with 401 when the secret is configured, is processed when \<^verbatim>\<open>DWOLLA_WEBHOOK_SECRET\<close> is
  unset, and so is one with no signature at all; the invoice goes to \<^verbatim>\<open>completed\<close>.
\<close>

theorem unset_secret_skips_verification:
  "createDwollaWebhookHandler example_lib example_config 1737500000 None billed_store
      forged_notification = (SendStatus 401, billed_store)
   \<and> DWOLLA_WEBHOOK_SECRET unsigned_config = None
   \<and> createDwollaWebhookHandler example_lib unsigned_config 1737500000 None billed_store
      forged_notification = (SendStatus 200, completed_store)
   \<and> createDwollaWebhookHandler example_lib unsigned_config 1737500000 None billed_store
      unsigned_notification = (SendStatus 200, completed_store)
   \<and> map i_status (invoices billed_store) = [''initiated'']
   \<and> map i_status (invoices completed_store) = [''completed'']"
  by (simp add: reconciler_defs)

text \<open>
  Claim C7, amended. When a non-empty signing secret is configured, a notification whose
  signature header is absent or is not the hex HMAC-SHA256 of the raw payload under that
  secret changes nothing in the store, and it is answered 401 when the header is absent,
  empty or as long as the digest; the notification is taken as authentic exactly when the
  header equals that digest. When the secret is unset or empty, verification is skipped
  and every notification is taken as authentic.
\<close>

theorem signature_gate:
  "(DWOLLA_WEBHOOK_SECRET cfg = Some sec \<and> sec \<noteq> []
      \<and> x_request_signature_sha256 req \<noteq> Some (hmac_sha256_hex L sec (d_body req))
    \<longrightarrow> snd (createDwollaWebhookHandler L cfg now fault db req) = db
       \<and> ((\<forall>s. x_request_signature_sha256 req = Some s \<longrightarrow>
               s = [] \<or> length s = length (hmac_sha256_hex L sec (d_body req)))
            \<longrightarrow> fst (createDwollaWebhookHandler L cfg now fault db req) = SendStatus 401))
   \<and> (DWOLLA_WEBHOOK_SECRET cfg = Some sec \<and> sec \<noteq> [] \<longrightarrow>
        (verifyDwollaWebhookSignature L req (DWOLLA_WEBHOOK_SECRET cfg) = Inr True \<longleftrightarrow>
           x_request_signature_sha256 req = Some (hmac_sha256_hex L sec (d_body req))
           \<and> hmac_sha256_hex L sec (d_body req) \<noteq> []))
   \<and> (DWOLLA_WEBHOOK_SECRET cfg = None \<or> DWOLLA_WEBHOOK_SECRET cfg = Some [] \<longrightarrow>
        verifyDwollaWebhookSignature L req (DWOLLA_WEBHOOK_SECRET cfg) = Inr True)"
proof (intro conjI impI)
  assume a: "DWOLLA_WEBHOOK_SECRET cfg = Some sec \<and> sec \<noteq> []
      \<and> x_request_signature_sha256 req \<noteq> Some (hmac_sha256_hex L sec (d_body req))"
  then have "verifyDwollaWebhookSignature L req (DWOLLA_WEBHOOK_SECRET cfg) \<noteq> Inr True"
    by (simp add: verify_set)
  then show "snd (createDwollaWebhookHandler L cfg now fault db req) = db"
    by (rule dwolla_unverified)
  assume b: "\<forall>s. x_request_signature_sha256 req = Some s \<longrightarrow>
               s = [] \<or> length s = length (hmac_sha256_hex L sec (d_body req))"
  from a b have "verifyDwollaWebhookSignature L req (DWOLLA_WEBHOOK_SECRET cfg) = Inr False"
    by (auto simp: verify_rejects split: option.splits)
  then show "fst (createDwollaWebhookHandler L cfg now fault db req) = SendStatus 401"
    by (simp add: dwolla_response)
next
  assume "DWOLLA_WEBHOOK_SECRET cfg = Some sec \<and> sec \<noteq> []"
  then show "verifyDwollaWebhookSignature L req (DWOLLA_WEBHOOK_SECRET cfg) = Inr True \<longleftrightarrow>
           x_request_signature_sha256 req = Some (hmac_sha256_hex L sec (d_body req))
           \<and> hmac_sha256_hex L sec (d_body req) \<noteq> []"
    by (simp add: verify_set)
next
  assume "DWOLLA_WEBHOOK_SECRET cfg = None \<or> DWOLLA_WEBHOOK_SECRET cfg = Some []"
  then show "verifyDwollaWebhookSignature L req (DWOLLA_WEBHOOK_SECRET cfg) = Inr True"
    by (auto simp: verifyDwollaWebhookSignature_def)
qed

theorem signature_gate_witness:
  "DWOLLA_WEBHOOK_SECRET example_config = Some ''whsec''
   \<and> x_request_signature_sha256 forged_notification = Some ''0000''
   \<and> hmac_sha256_hex example_lib ''whsec'' (d_body forged_notification) = ''5f2a''
   \<and> snd (createDwollaWebhookHandler example_lib example_config 1737500000 None billed_store
           forged_notification) = billed_store
   \<and> fst (createDwollaWebhookHandler example_lib example_config 1737500000 None billed_store
           forged_notification) = SendStatus 401"
proof -
  have a: "DWOLLA_WEBHOOK_SECRET example_config = Some ''whsec''"
    and b: "x_request_signature_sha256 forged_notification = Some ''0000''"
    and c: "hmac_sha256_hex example_lib ''whsec'' (d_body forged_notification) = ''5f2a''"
    by (simp_all add: example_config_def forged_notification_def example_lib_def)
  from signature_gate[where cfg = example_config and sec = "''whsec''"
      and req = forged_notification and L = example_lib and now = 1737500000 and fault = None
      and db = billed_store] a b c
  have "snd (createDwollaWebhookHandler example_lib example_config 1737500000 None billed_store
           forged_notification) = billed_store"
    and "fst (createDwollaWebhookHandler example_lib example_config 1737500000 None billed_store
           forged_notification) = SendStatus 401"
    by simp_all
  with a b c show ?thesis by (intro conjI)
qed

subsection \<open>C8: every notification is acknowledged\<close>

text \<open>
  Claim C8. A notification that is not rejected by the signature check is answered 200,
  whatever the payload, the topic and the store do. A notification naming a transfer that
  no invoice has leaves the store as it is, and so does one that meets an error of the
  store, one whose payload does not parse or lacks the transfer reference or the topic, and
  one whose topic is neither \<^verbatim>\<open>transfer_completed\<close> nor \<^verbatim>\<open>transfer_failed\<close>.
\<close>

theorem always_acknowledged:
  "(verifyDwollaWebhookSignature L req (DWOLLA_WEBHOOK_SECRET cfg) \<noteq> Inr False \<longrightarrow>
      fst (createDwollaWebhookHandler L cfg now fault db req) = SendStatus 200)
   \<and> ((\<forall>href topic h. json_href_topic L (d_body req) = Some (href, topic) \<longrightarrow>
          pg_text L href = Some h \<longrightarrow>
          (\<forall>i\<in>set (invoices db). dwolla_transfer_href i \<noteq> Some h))
       \<longrightarrow> snd (createDwollaWebhookHandler L cfg now fault db req) = db)
   \<and> (fault \<noteq> None
        \<or> (\<forall>href topic. json_href_topic L (d_body req) = Some (href, topic) \<longrightarrow>
              \<not> truthy href \<or> \<not> truthy topic
              \<or> topic \<noteq> JString ''transfer_completed'' \<and> topic \<noteq> JString ''transfer_failed'')
       \<longrightarrow> snd (createDwollaWebhookHandler L cfg now fault db req) = db)"
proof (intro conjI impI)
  assume "verifyDwollaWebhookSignature L req (DWOLLA_WEBHOOK_SECRET cfg) \<noteq> Inr False"
  then show "fst (createDwollaWebhookHandler L cfg now fault db req) = SendStatus 200"
    by (simp add: dwolla_response)
next
  assume none: "\<forall>href topic h. json_href_topic L (d_body req) = Some (href, topic) \<longrightarrow>
          pg_text L href = Some h \<longrightarrow>
          (\<forall>i\<in>set (invoices db). dwolla_transfer_href i \<noteq> Some h)"
  obtain resp db' where h: "createDwollaWebhookHandler L cfg now fault db req = (resp, db')"
    by (cases "createDwollaWebhookHandler L cfg now fault db req")
  from h have "db' = db"
  proof (cases rule: dwolla_cases)
    case ignored
    then show ?thesis by simp
  next
    case (updated target h href topic)
    with none have "\<forall>i\<in>set (invoices db). dwolla_transfer_href i \<noteq> Some h" by blast
    with updated(8) show ?thesis by (simp add: update_invoice_status_none)
  qed
  with h show "snd (createDwollaWebhookHandler L cfg now fault db req) = db" by simp
next
  assume a: "fault \<noteq> None
        \<or> (\<forall>href topic. json_href_topic L (d_body req) = Some (href, topic) \<longrightarrow>
              \<not> truthy href \<or> \<not> truthy topic
              \<or> topic \<noteq> JString ''transfer_completed'' \<and> topic \<noteq> JString ''transfer_failed'')"
  obtain resp db' where h: "createDwollaWebhookHandler L cfg now fault db req = (resp, db')"
    by (cases "createDwollaWebhookHandler L cfg now fault db req")
  from h have "db' = db"
  proof (cases rule: dwolla_cases)
    case ignored
    then show ?thesis by simp
  next
    case (updated target h href topic)
    with a h show ?thesis
      by (auto simp: createDwollaWebhookHandler_def split: if_splits)
  qed
  with h show "snd (createDwollaWebhookHandler L cfg now fault db req) = db" by simp
qed

theorem always_acknowledged_witness:
  "verifyDwollaWebhookSignature example_lib unknown_notification
       (DWOLLA_WEBHOOK_SECRET example_config) = Inr True
   \<and> json_href_topic example_lib (d_body unknown_notification) =
       Some (JString ''t9'', JString ''transfer_completed'')
   \<and> map dwolla_transfer_href (invoices billed_store) = [Some ''t1'']
   \<and> fst (createDwollaWebhookHandler example_lib example_config 1737500000 None billed_store
           unknown_notification) = SendStatus 200
   \<and> snd (createDwollaWebhookHandler example_lib example_config 1737500000 None billed_store
           unknown_notification) = billed_store
   \<and> fst (createDwollaWebhookHandler example_lib example_config 1737500000
           (Some (Thrown ''connection terminated'')) billed_store completed_notification) =
       SendStatus 200
   \<and> snd (createDwollaWebhookHandler example_lib example_config 1737500000
           (Some (Thrown ''connection terminated'')) billed_store completed_notification) =
       billed_store"
proof -
  have v: "verifyDwollaWebhookSignature example_lib unknown_notification
       (DWOLLA_WEBHOOK_SECRET example_config) = Inr True"
    and v2: "verifyDwollaWebhookSignature example_lib completed_notification
       (DWOLLA_WEBHOOK_SECRET example_config) = Inr True"
    and j: "json_href_topic example_lib (d_body unknown_notification) =
       Some (JString ''t9'', JString ''transfer_completed'')"
    and t: "map dwolla_transfer_href (invoices billed_store) = [Some ''t1'']"
    by (simp_all add: reconciler_defs)
  then have none: "\<forall>href topic h.
        json_href_topic example_lib (d_body unknown_notification) = Some (href, topic) \<longrightarrow>
          pg_text example_lib href = Some h \<longrightarrow>
          (\<forall>i\<in>set (invoices billed_store). dwolla_transfer_href i \<noteq> Some h)"
    by (auto simp: billed_store_def invoice_C1_def)
  from always_acknowledged[where L = example_lib and req = unknown_notification
      and cfg = example_config and now = 1737500000 and fault = None and db = billed_store]
    v none
  have one: "fst (createDwollaWebhookHandler example_lib example_config 1737500000 None
           billed_store unknown_notification) = SendStatus 200"
    "snd (createDwollaWebhookHandler example_lib example_config 1737500000 None billed_store
           unknown_notification) = billed_store"
    by simp_all
  from always_acknowledged[where L = example_lib and req = completed_notification
      and cfg = example_config and now = 1737500000
      and fault = "Some (Thrown ''connection terminated'')" and db = billed_store] v2
  have two: "fst (createDwollaWebhookHandler example_lib example_config 1737500000
           (Some (Thrown ''connection terminated'')) billed_store completed_notification) =
       SendStatus 200"
    "snd (createDwollaWebhookHandler example_lib example_config 1737500000
           (Some (Thrown ''connection terminated'')) billed_store completed_notification) =
       billed_store"
    by simp_all
  from v j t one two show ?thesis by (intro conjI)
qed

subsection \<open>C9: validation before any effect\<close>



subsection \<open>C10: the customer upsert of a submission\<close>

lemma upsert_customer_rows:
  "list_all2 (\<lambda>c c'. c_crm_contact_id c' = c_crm_contact_id c
                \<and> dwolla_customer_href c' = dwolla_customer_href c
                \<and> dwolla_funding_href c' = dwolla_funding_href c
                \<and> c_status c' = c_status c
                \<and> (c_crm_contact_id c \<noteq> cid \<longrightarrow> c' = c))
     (customers db) (take (length (customers db)) (customers (upsert_customer cid nm em db)))"
proof (cases "cid \<in> set (map c_crm_contact_id (customers db))")
  case True
  then show ?thesis
    by (simp add: upsert_customer_def list_all2_map2 list_all2_same)
next
  case False
  then show ?thesis
    by (simp add: upsert_customer_def list_all2_same)
qed

lemma upsert_customer_new:
  "\<forall>c\<in>set (drop (length (customers db)) (customers (upsert_customer cid nm em db))).
     c_status c = Some ''pending'' \<and> dwolla_funding_href c = None"
  by (simp add: upsert_customer_def)

lemma upsert_customer_row:
  "cid \<in> c_crm_contact_id ` set (customers (upsert_customer cid nm em db))"
  "\<forall>c\<in>set (customers (upsert_customer cid nm em db)).
     c_crm_contact_id c = cid \<longrightarrow> c_name c = nm \<and> c_email c = em"
proof -
  have "cid \<in> set (map c_crm_contact_id (customers (upsert_customer cid nm em db)))"
    by (simp add: upsert_customer_ids)
  then show "cid \<in> c_crm_contact_id ` set (customers (upsert_customer cid nm em db))"
    by simp
  show "\<forall>c\<in>set (customers (upsert_customer cid nm em db)).
     c_crm_contact_id c = cid \<longrightarrow> c_name c = nm \<and> c_email c = em"
    by (auto simp: upsert_customer_def)
qed

text \<open>
  Claim C10. For an authenticated submission that passes validation, either the store
  fails, the transaction is rolled back and the answer is 500, or the answer is 200 and
  the customers table then has a row for the submission's \<^verbatim>\<open>crm_contact_id\<close> whose name
  and email are those of this submission; this holds also when the \<^verbatim>\<open>idempotency_key\<close> is
  already in the ledger and the answer says \<^verbatim>\<open>recorded: false\<close>. In both cases every row
  the table had keeps its \<^verbatim>\<open>crm_contact_id\<close>, its two processor references and its status,
  rows of other customers are not changed at all, and a row that is added has status
  \<^verbatim>\<open>pending\<close> and no funding source.
\<close>

theorem customer_upsert_on_every_submission:
  assumes auth: "g_authorization req =
         Some (''Bearer '' @ (case GHL_BEARER cfg of None \<Rightarrow> ''undefined'' | Some s \<Rightarrow> s))"
    and valid: "validateUsageWebhook L (g_body req) = []"
    and h: "createGhlUsageHandler L cfg fault db req = (resp, db')"
  shows "\<exists>cid key.
      b_crm_contact_id (g_body req) = JString cid \<and> b_idempotency_key (g_body req) = JString key
    \<and> (resp = InternalServerError \<and> db' = db
        \<or> resp = UsageResult (key \<notin> set (map idempotency_key (usage_ledger db)))
                   (if key \<notin> set (map idempotency_key (usage_ledger db))
                    then ''Usage recorded'' else ''Duplicate request ignored'')
          \<and> cid \<in> c_crm_contact_id ` set (customers db')
          \<and> (\<forall>c\<in>set (customers db'). c_crm_contact_id c = cid \<longrightarrow>
                 c_name c = pg_text L (b_name (g_body req))
                 \<and> c_email c = pg_text L (b_email (g_body req))))
    \<and> list_all2 (\<lambda>c c'. c_crm_contact_id c' = c_crm_contact_id c
                \<and> dwolla_customer_href c' = dwolla_customer_href c
                \<and> dwolla_funding_href c' = dwolla_funding_href c
                \<and> c_status c' = c_status c
                \<and> (c_crm_contact_id c \<noteq> cid \<longrightarrow> c' = c))
         (customers db) (take (length (customers db)) (customers db'))
    \<and> (\<forall>c\<in>set (drop (length (customers db)) (customers db')).
          c_status c = Some ''pending'' \<and> dwolla_funding_href c = None)"
proof -
  from valid obtain cid key where body:
    "b_crm_contact_id (g_body req) = JString cid" "b_idempotency_key (g_body req) = JString key"
    unfolding validateUsageWebhook_Nil by blast
  from h show ?thesis
  proof (cases rule: ghl_cases)
    case rejected
    from h auth valid have "resp \<noteq> SendStatus 401"
      by (auto simp: createGhlUsageHandler_def Let_def split: option.splits sum.splits prod.splits)
    with rejected(2) valid have "resp = InternalServerError" by auto
    with rejected(1) body show ?thesis
      by (intro exI[of _ cid] exI[of _ key]) (simp add: list_all2_refl)
  next
    case (committed cid' key' n t)
    with body have eq: "cid' = cid" "key' = key" by simp_all
    let ?up = "upsert_customer cid (pg_text L (b_name (g_body req)))
                   (pg_text L (b_email (g_body req))) db"
    from committed(11) eq have cust: "customers db' = customers ?up"
      by (simp add: insert_usage_frame)
    from committed(12) eq cust body
      upsert_customer_row[of cid "pg_text L (b_name (g_body req))" "pg_text L (b_email (g_body req))" db]
      upsert_customer_rows[of cid db "pg_text L (b_name (g_body req))" "pg_text L (b_email (g_body req))"]
      upsert_customer_new[of db cid "pg_text L (b_name (g_body req))" "pg_text L (b_email (g_body req))"]
    show ?thesis
      by (intro exI[of _ cid] exI[of _ key]) simp
  qed
qed

theorem customer_upsert_on_every_submission_witness:
  "g_authorization rename_usage_request = Some ''Bearer super-long-random''
   \<and> validateUsageWebhook example_lib (g_body rename_usage_request) = []
   \<and> createGhlUsageHandler example_lib example_config None unbilled_store rename_usage_request =
       (UsageResult False ''Duplicate request ignored'', renamed_store)
   \<and> list_all (\<lambda>c. c_name c = Some ''Johnny'' \<and> c_email c = Some ''j@example.org'')
        (filter (\<lambda>c. c_crm_contact_id c = ''C1'') (customers renamed_store))
   \<and> map c_status (customers renamed_store) = map c_status (customers unbilled_store)
   \<and> map dwolla_funding_href (customers renamed_store) =
       map dwolla_funding_href (customers unbilled_store)"
proof -
  have auth: "g_authorization rename_usage_request =
         Some (''Bearer '' @ (case GHL_BEARER example_config of None \<Rightarrow> ''undefined'' | Some s \<Rightarrow> s))"
    by (simp add: rename_usage_request_def example_usage_request_def example_config_def)
  have valid: "validateUsageWebhook example_lib (g_body rename_usage_request) = []"
    by (simp add: validateUsageWebhook_def rename_usage_request_def example_body_def
        example_lib_def)
  have run: "createGhlUsageHandler example_lib example_config None unbilled_store
       rename_usage_request = (UsageResult False ''Duplicate request ignored'', renamed_store)"
    by (simp add: createGhlUsageHandler_def validateUsageWebhook_def usage_transaction_def
        upsert_customer_def insert_usage_def example_lib_def example_config_def
        example_usage_request_def rename_usage_request_def example_body_def renamed_store_def
        unbilled_store_def customer_C1_def usage_C1_def Let_def)
  from customer_upsert_on_every_submission[OF auth valid run]
  have "\<forall>c\<in>set (customers renamed_store). c_crm_contact_id c = ''C1'' \<longrightarrow>
                 c_name c = pg_text example_lib (b_name (g_body rename_usage_request))
                 \<and> c_email c = pg_text example_lib (b_email (g_body rename_usage_request))"
    and "list_all2 (\<lambda>c c'. dwolla_funding_href c' = dwolla_funding_href c \<and> c_status c' = c_status c)
         (customers unbilled_store) (take (length (customers unbilled_store)) (customers renamed_store))"
    by (auto simp: rename_usage_request_def example_body_def elim!: list_all2_mono)
  then have "list_all (\<lambda>c. c_name c = Some ''Johnny'' \<and> c_email c = Some ''j@example.org'')
        (filter (\<lambda>c. c_crm_contact_id c = ''C1'') (customers renamed_store))"
    and "map c_status (customers renamed_store) = map c_status (customers unbilled_store)"
    and "map dwolla_funding_href (customers renamed_store) =
       map dwolla_funding_href (customers unbilled_store)"
    by (auto simp: list_all_iff rename_usage_request_def example_body_def renamed_store_def
        unbilled_store_def)
  with auth valid run show ?thesis
    by (simp add: example_config_def)
qed

end
